theory Spec2Isabelle
  imports Main
begin

text \<open>
  The loader \<open>buster\<close>: its identity parser \<open>schema\<close>, its registry
  \<open>loadedModules\<close>, \<open>load\<close> with the handlers of the script element it injects,
  \<open>$noConflict\<close>, and the wrapper that exports the loader. The functions are pure; the
  state they work on (the registry, the document, the promises, the console) is passed
  in and returned, and what the browser provides is a parameter.
\<close>

section \<open>The identity parser \<open>schema\<close>\<close>

text \<open>
  JavaScript's \<open>String.prototype.split\<close> with a one-character separator and no limit:
  the pieces between the occurrences of the separator, in order. The result is never
  empty: a string without the separator (the empty string too) gives the one-element
  array holding the string itself. The function is polymorphic in the character type:
  it only compares characters with the separator, so the width of a character (16 bits
  in JavaScript, 8 in \<open>string\<close>) plays no part.
\<close>

fun split :: "'a \<Rightarrow> 'a list \<Rightarrow> 'a list list" where
  "split sep [] = [[]]"
| "split sep (c # cs) =
     (if c = sep then [] # split sep cs
      else (case split sep cs of
              [] \<Rightarrow> [[c]]
            | piece # pieces \<Rightarrow> (c # piece) # pieces))"

record schema_result =
  moduleName :: string
  version :: string

text \<open>
  \<open>function schema(url)\<close>: the last piece of \<open>url.split('/')\<close> (\<open>pop()\<close> of a
  non-empty array); when it includes a dot it is split at every dot, the piece of index 0
  is the module name and the piece of index 1 the version. Lemma \<open>split_length\<close> below
  shows that index 1 exists whenever the segment includes a dot, so \<open>parts[1]\<close> is never
  \<open>undefined\<close>.
\<close>

definition schema :: "string \<Rightarrow> schema_result" where
  "schema url =
     (let moduleName = last (split CHR ''/'' url) in
      if CHR ''.'' \<in> set moduleName
      then (let parts = split CHR ''.'' moduleName
            in \<lparr>moduleName = parts ! 0, version = parts ! 1\<rparr>)
      else \<lparr>moduleName = moduleName, version = ''''\<rparr>)"

section \<open>JavaScript values, the host and the loader's state\<close>

text \<open>
  The JavaScript values the loader tests or compares: \<open>if (thisArg)\<close>,
  \<open>options.async !== false\<close>, \<open>if (global.buster)\<close> and \<open>window.buster === buster\<close>.
  An object is known by its identity, which is what \<open>===\<close> compares; numbers are
  integers here (\<open>NaN\<close>, the only other falsy number, is left out).
\<close>

datatype jsval = Undefined | Null | Bool bool | Num int | Str string | Obj nat

fun truthy :: "jsval \<Rightarrow> bool" where
  "truthy Undefined = False"
| "truthy Null = False"
| "truthy (Bool b) = b"
| "truthy (Num n) = (n \<noteq> 0)"
| "truthy (Str s) = (s \<noteq> [])"
| "truthy (Obj a) = True"

text \<open>
  A thrown or reported value: the \<open>TypeError\<close> the engine raises when a property of
  \<open>null\<close> is read, or an object of the host or the caller (the event of a failed load, the
  exception of \<open>new URL\<close> or of the DOM, the exception of a hook), known by its identity.
\<close>

datatype error = TypeError | ErrorObj nat

text \<open>
  The hook \<open>options.onError\<close> is the caller's function. It is called with a \<open>this\<close>
  binding (\<open>Some thisArg\<close> through \<open>.call(thisArg, error)\<close>, \<open>None\<close> when called as
  \<open>options.onError(error)\<close>) and the error, and it returns (\<open>None\<close>) or throws.
\<close>

type_synonym hook = "jsval option \<Rightarrow> error \<Rightarrow> error option"

record options =
  opt_async :: jsval
  opt_onError :: "hook option"

text \<open>
  The second argument of \<open>load\<close>. The default \<open>options = {}\<close> replaces a missing or
  \<open>undefined\<close> argument only; \<open>null\<close> stays \<open>null\<close> (\<open>None\<close> below), and reading a
  property of it raises \<open>TypeError\<close>. Of an object the code reads \<open>async\<close> and
  \<open>onError\<close>; the hook is a function when it is there, as the interface has it.
\<close>

datatype options_arg = NotPassed | PassedNull | Passed options

fun default_options :: "options_arg \<Rightarrow> options option" where
  "default_options NotPassed = Some \<lparr>opt_async = Undefined, opt_onError = None\<rparr>"
| "default_options PassedNull = None"
| "default_options (Passed opts) = Some opts"

datatype promise_state = Pending | Fulfilled | Rejected error

text \<open>
  A script element as \<open>load\<close> configures it, with what its two handlers capture from
  the call: the module name, the promise, the options and \<open>thisArg\<close>.
  \<open>el_async\<close> is \<open>None\<close> when the code leaves the attribute at the host's default.
\<close>

record element =
  el_src :: string
  el_defer :: bool
  el_type :: string
  el_async :: "bool option"
  el_moduleName :: string
  el_promise :: nat
  el_options :: options
  el_thisArg :: jsval

text \<open>What an observer sees, in order: console output, calls of the hook, settled promises,
  and exceptions that leave an event handler.\<close>

datatype event =
    ConsoleWarn string
  | ConsoleError error
  | OnErrorCalled "jsval option" error
  | Settled nat promise_state
  | Uncaught error

text \<open>
  The state of one loader instance and its document: the own properties of
  \<open>loadedModules\<close> (each set to \<open>true\<close>), the children appended to \<open>document.head\<close>,
  the promises \<open>load\<close> has returned (a promise is its index), and the observable trace.
\<close>

record world =
  loadedModules :: "string set"
  head_children :: "element list"
  promises :: "promise_state list"
  trace :: "event list"

text \<open>
  What the host provides to \<open>load\<close>: \<open>window.location.origin\<close>, the result of
  \<open>new URL(input, base).href\<close> (or the exception the constructor raises), and the
  exceptions, if any, of \<open>document.createElement('script')\<close> and of
  \<open>document.head.appendChild(element)\<close>. The reading of the clock, \<open>Date.now()\<close>, is
  an argument of each call.
\<close>

record host =
  origin :: string
  URL_href :: "string \<Rightarrow> string \<Rightarrow> error + string"
  createElement_fails :: "error option"
  appendChild_fails :: "error option"

text \<open>
  \<open>const loadedModules = {}\<close> is an ordinary object, so the lookup
  \<open>loadedModules[moduleName]\<close> also finds the properties inherited from
  \<open>Object.prototype\<close>, all of them truthy.
\<close>

definition Object_prototype_keys :: "string list" where
  "Object_prototype_keys =
     [''constructor'', ''hasOwnProperty'', ''isPrototypeOf'', ''propertyIsEnumerable'',
      ''toLocaleString'', ''toString'', ''valueOf'', ''__defineGetter__'',
      ''__defineSetter__'', ''__lookupGetter__'', ''__lookupSetter__'', ''__proto__'']"

definition isLoaded :: "world \<Rightarrow> string \<Rightarrow> bool" where
  "isLoaded w name \<longleftrightarrow> name \<in> loadedModules w \<or> name \<in> set Object_prototype_keys"

text \<open>\<open>loadedModules[moduleName] = true\<close>: an own property, except for \<open>__proto__\<close>, whose
  inherited setter ignores a value that is not an object.\<close>

definition markLoaded :: "string \<Rightarrow> world \<Rightarrow> world" where
  "markLoaded name w =
     (if name = ''__proto__'' then w
      else w\<lparr>loadedModules := insert name (loadedModules w)\<rparr>)"

definition emit :: "event \<Rightarrow> world \<Rightarrow> world" where
  "emit ev w = w\<lparr>trace := trace w @ [ev]\<rparr>"

text \<open>The resolving functions of a promise settle it once; later calls do nothing, and
  \<open>resolve.call(thisArg)\<close> and \<open>reject.call(thisArg, error)\<close> do what the plain calls do.\<close>

definition settle :: "nat \<Rightarrow> promise_state \<Rightarrow> world \<Rightarrow> world" where
  "settle p s w =
     (if p < length (promises w) \<and> promises w ! p = Pending
      then emit (Settled p s) (w\<lparr>promises := (promises w)[p := s]\<rparr>)
      else w)"

definition resolve :: "nat \<Rightarrow> world \<Rightarrow> world" where
  "resolve p w = settle p Fulfilled w"

definition reject :: "nat \<Rightarrow> error \<Rightarrow> world \<Rightarrow> world" where
  "reject p e w = settle p (Rejected e) w"

definition binding :: "jsval \<Rightarrow> jsval option" where
  "binding thisArg = (if truthy thisArg then Some thisArg else None)"

section \<open>The freshness token\<close>

text \<open>
  The template literal renders the number \<open>Date.now()\<close> in decimal: an integer of
  magnitude below \<open>10^21\<close>, as every time value is, prints as its digits, with a minus
  sign when negative.
\<close>

fun digits :: "nat \<Rightarrow> string" where
  "digits n =
     (if n < 10 then [''0123456789'' ! n]
      else digits (n div 10) @ [''0123456789'' ! (n mod 10)])"

declare digits.simps [simp del]

definition decimal :: "int \<Rightarrow> string" where
  "decimal t = (if t < 0 then CHR ''-'' # digits (nat (- t)) else digits (nat t))"

text \<open>\<open>`${module}?cacheBuster=${cacheBuster}`\<close>\<close>

definition cacheBusted :: "string \<Rightarrow> int \<Rightarrow> string" where
  "cacheBusted module t = module @ ''?cacheBuster='' @ decimal t"

section \<open>\<open>load\<close>\<close>

text \<open>
  The failure code of \<open>load\<close>, written twice in the source with the same text: in
  \<open>element.onerror\<close> and in the \<open>catch\<close> block. It reports the error on the console,
  calls the hook when \<open>options.onError\<close> is truthy, bound to \<open>thisArg\<close> when that is
  truthy, and then rejects. The result is the exception that leaves the code, if any:
  the \<open>TypeError\<close> of reading \<open>options.onError\<close> when \<open>options\<close> is \<open>null\<close>, or
  what the hook throws; the rejection is then not reached.
\<close>

definition report_failure ::
  "options option \<Rightarrow> jsval \<Rightarrow> nat \<Rightarrow> error \<Rightarrow> world \<Rightarrow> error option \<times> world" where
  "report_failure options thisArg p e w =
     (let w1 = emit (ConsoleError e) w in
      case options of
        None \<Rightarrow> (Some TypeError, w1)
      | Some opts \<Rightarrow>
          (case opt_onError opts of
             None \<Rightarrow> (None, reject p e w1)
           | Some hk \<Rightarrow>
               (let w2 = emit (OnErrorCalled (binding thisArg) e) w1 in
                case hk (binding thisArg) e of
                  Some x \<Rightarrow> (Some x, w2)
                | None \<Rightarrow> (None, reject p e w2))))"

text \<open>\<open>element.onload\<close> and \<open>element.onerror\<close>. An exception that leaves a handler goes
  to the host, which reports it; the promise is not touched by it.\<close>

definition onload :: "element \<Rightarrow> world \<Rightarrow> world" where
  "onload el w = resolve (el_promise el) (markLoaded (el_moduleName el) w)"

definition onerror :: "element \<Rightarrow> error \<Rightarrow> world \<Rightarrow> world" where
  "onerror el e w =
     (case report_failure (Some (el_options el)) (el_thisArg el) (el_promise el) e w of
        (None, w') \<Rightarrow> w'
      | (Some x, w') \<Rightarrow> emit (Uncaught x) w')"

text \<open>
  The body of the \<open>try\<close> block, for the promise \<open>p\<close> being constructed. The result is the
  exception it raises, if any. \<open>schema\<close> cannot raise on a string; \<open>extension\<close>, which
  the source also takes from its result, is \<open>undefined\<close> and unused.
\<close>

definition try_block ::
  "host \<Rightarrow> int \<Rightarrow> string \<Rightarrow> options option \<Rightarrow> jsval \<Rightarrow> nat \<Rightarrow> world \<Rightarrow> error option \<times> world" where
  "try_block h t module options thisArg p w =
     (let name = moduleName (schema module) in
      if isLoaded w name
      then (None, resolve p (emit (ConsoleWarn (''Module '' @ name @ '' is already loaded.'')) w))
      else
        (case URL_href h (cacheBusted module t) (origin h) of
           Inl e \<Rightarrow> (Some e, w)
         | Inr href \<Rightarrow>
             (case createElement_fails h of
                Some e \<Rightarrow> (Some e, w)
              | None \<Rightarrow>
                  (case options of
                     None \<Rightarrow> (Some TypeError, w)
                   | Some opts \<Rightarrow>
                       (let element =
                          \<lparr>el_src = href, el_defer = True,
                           el_type = ''application/javascript'',
                           el_async = (if opt_async opts \<noteq> Bool False then Some True else None),
                           el_moduleName = name, el_promise = p,
                           el_options = opts, el_thisArg = thisArg\<rparr>
                        in case appendChild_fails h of
                             Some e \<Rightarrow> (Some e, w)
                           | None \<Rightarrow> (None, w\<lparr>head_children := head_children w @ [element]\<rparr>))))))"

text \<open>The executor \<open>(resolve, reject) => { try { ... } catch (error) { ... } }\<close>.\<close>

definition executor ::
  "host \<Rightarrow> int \<Rightarrow> string \<Rightarrow> options option \<Rightarrow> jsval \<Rightarrow> nat \<Rightarrow> world \<Rightarrow> error option \<times> world" where
  "executor h t module options thisArg p w =
     (case try_block h t module options thisArg p w of
        (None, w') \<Rightarrow> (None, w')
      | (Some e, w') \<Rightarrow> report_failure options thisArg p e w')"

text \<open>
  \<open>load(module, options = {}, thisArg)\<close> returns \<open>new Promise(executor)\<close>: the constructor
  makes a pending promise, runs the executor at once, and rejects the promise with
  whatever the executor throws. The result is the promise and the new state.
\<close>

definition load ::
  "host \<Rightarrow> int \<Rightarrow> string \<Rightarrow> options_arg \<Rightarrow> jsval \<Rightarrow> world \<Rightarrow> nat \<times> world" where
  "load h t module oa thisArg w =
     (let p = length (promises w);
          w0 = w\<lparr>promises := promises w @ [Pending]\<rparr>
      in case executor h t module (default_options oa) thisArg p w0 of
           (None, w') \<Rightarrow> (p, w')
         | (Some x, w') \<Rightarrow> (p, reject p x w'))"

definition bust ::
  "host \<Rightarrow> int \<Rightarrow> string \<Rightarrow> options_arg \<Rightarrow> jsval \<Rightarrow> world \<Rightarrow> nat \<times> world" where
  "bust h t module oa thisArg w = load h t module oa thisArg w"

section \<open>The process: calls and events in any order\<close>

text \<open>The host delivers \<open>load\<close> and \<open>error\<close> events to elements of the document, by
  position in \<open>document.head\<close>; there is no element to notify at a position beyond it.\<close>

definition fire_load :: "nat \<Rightarrow> world \<Rightarrow> world" where
  "fire_load i w = (if i < length (head_children w) then onload (head_children w ! i) w else w)"

definition fire_error :: "nat \<Rightarrow> error \<Rightarrow> world \<Rightarrow> world" where
  "fire_error i e w =
     (if i < length (head_children w) then onerror (head_children w ! i) e w else w)"

datatype action =
    CallLoad int string options_arg jsval
  | FireLoad nat
  | FireError nat error

fun step :: "host \<Rightarrow> world \<Rightarrow> action \<Rightarrow> world" where
  "step h w (CallLoad t module oa thisArg) = snd (load h t module oa thisArg w)"
| "step h w (FireLoad i) = fire_load i w"
| "step h w (FireError i e) = fire_error i e w"

definition run :: "host \<Rightarrow> world \<Rightarrow> action list \<Rightarrow> world" where
  "run h w actions = foldl (step h) w actions"

definition initial_world :: world where
  "initial_world = \<lparr>loadedModules = {}, head_children = [], promises = [], trace = []\<rparr>"

section \<open>The module wrapper and \<open>$noConflict\<close>\<close>

text \<open>
  What the wrapper reads and writes at initialization, in a realm whose global object is
  \<open>window\<close>: whether \<open>module.exports\<close> is there (\<open>typeof module === 'object' &&
  typeof module.exports === 'object'\<close>), whether an AMD \<open>define\<close> is there, the value of
  \<open>module.exports\<close>, the factories handed to \<open>define\<close>, the global slot \<open>buster\<close>, the
  objects marked with \<open>__esModule\<close>, and the warnings on the console.
\<close>

record realm =
  has_module_exports :: bool
  has_define_amd :: bool
  module_exports :: jsval
  amd_defined :: "jsval list"
  global_buster :: jsval
  esModule_marked :: "jsval list"
  warnings :: "string list"

text \<open>The wrapper; \<open>me\<close> is the identity of the loader object that \<open>factory()\<close> makes.
  With AMD the factory is handed over and makes that object when \<open>define\<close> calls it.\<close>

definition umd_wrapper :: "nat \<Rightarrow> realm \<Rightarrow> realm" where
  "umd_wrapper me r =
     (if has_module_exports r then r\<lparr>module_exports := Obj me\<rparr>
      else if has_define_amd r then r\<lparr>amd_defined := amd_defined r @ [Obj me]\<rparr>
      else
        (let r1 = (if truthy (global_buster r)
                   then r\<lparr>warnings := warnings r @ [''buster is already defined in the global scope'']\<rparr>
                   else r)
         in if \<not> truthy (global_buster r1)
            then r1\<lparr>global_buster := Obj me, esModule_marked := esModule_marked r1 @ [Obj me]\<rparr>
            else r1))"

text \<open>\<open>$noConflict\<close> of the loader \<open>me\<close>: the value returned and the realm after.\<close>

definition noConflict :: "nat \<Rightarrow> realm \<Rightarrow> jsval \<times> realm" where
  "noConflict me r =
     (Obj me, if global_buster r = Obj me then r\<lparr>global_buster := Undefined\<rparr> else r)"

section \<open>A host and hooks for the scenarios\<close>

text \<open>A host at \<open>https://example.org\<close> for the scenarios of the specification, which
  use locators that are absolute paths: such a locator resolves to the origin followed
  by the locator.\<close>

definition example_host :: host where
  "example_host =
     \<lparr>origin = ''https://example.org'',
      URL_href = (\<lambda>input base. Inr (base @ input)),
      createElement_fails = None,
      appendChild_fails = None\<rparr>"

definition returning_hook :: hook where
  "returning_hook b e = None"

definition throwing_hook :: hook where
  "throwing_hook b e = Some (ErrorObj 99)"

text \<open>A host on which inserting the element fails.\<close>

definition broken_host :: host where
  "broken_host = example_host\<lparr>appendChild_fails := Some (ErrorObj 5)\<rparr>"

text \<open>A host whose \<open>new URL\<close> rejects every locator.\<close>

definition unparsable_host :: host where
  "unparsable_host = example_host\<lparr>URL_href := (\<lambda>input base. Inl (ErrorObj 4))\<rparr>"

text \<open>The state after \<open>/modules/bustMe.js\<close> has been loaded with success.\<close>

definition loaded_world :: world where
  "loaded_world =
     fire_load 0 (snd (load example_host 1700000000000 ''/modules/bustMe.js'' NotPassed Undefined
                         initial_world))"

text \<open>A browser page with neither CommonJS nor AMD, whose global \<open>buster\<close> holds \<open>slot\<close>.\<close>

definition browser_realm :: "jsval \<Rightarrow> realm" where
  "browser_realm slot =
     \<lparr>has_module_exports = False, has_define_amd = False, module_exports = Undefined,
      amd_defined = [], global_buster = slot, esModule_marked = [], warnings = []\<rparr>"


section \<open>Properties of \<open>split\<close>\<close>

lemma split_not_Nil: "split sep s \<noteq> []"
  by (induction s) (auto split: list.splits)

lemma split_without_sep: "sep \<notin> set s \<Longrightarrow> split sep s = [s]"
  by (induction s) auto

lemma split_at_first_sep:
  "sep \<notin> set a \<Longrightarrow> split sep (a @ sep # r) = a # split sep r"
  by (induction a) auto

lemma split_length: "length (split sep s) = Suc (length (filter (\<lambda>c. c = sep) s))"
  by (induction s) (auto split: list.splits)

lemma last_split_after_sep: "last (split sep (q @ sep # r)) = last (split sep r)"
proof (induction q)
  case Nil
  show ?case by (simp add: split_not_Nil)
next
  case (Cons c q)
  have "length (split sep (q @ sep # r)) \<ge> 2"
    by (simp add: split_length)
  then obtain piece piece' pieces where "split sep (q @ sep # r) = piece # piece' # pieces"
    by (cases "split sep (q @ sep # r)" rule: remdups_adj.cases) auto
  with Cons show ?case by auto
qed

lemma last_split_segment:
  assumes "sep \<notin> set seg" and "p = [] \<or> last p = sep"
  shows "last (split sep (p @ seg)) = seg"
proof (cases "p = []")
  case True
  with assms(1) show ?thesis by (simp add: split_without_sep)
next
  case False
  with assms(2) obtain q where "p = q @ [sep]"
    by (metis append_butlast_last_id)
  then have "last (split sep (p @ seg)) = last (split sep seg)"
    by (simp add: last_split_after_sep)
  with assms(1) show ?thesis by (simp add: split_without_sep)
qed

lemma split_first_piece: "split sep r ! 0 = takeWhile (\<lambda>c. c \<noteq> sep) r"
proof -
  have "hd (split sep r) = takeWhile (\<lambda>c. c \<noteq> sep) r"
    by (induction r) (auto simp: split_not_Nil split: list.splits)
  then show ?thesis
    by (simp add: hd_conv_nth split_not_Nil)
qed

lemma split_second_piece:
  assumes "sep \<notin> set a"
  shows "split sep (a @ sep # r) ! 1 = takeWhile (\<lambda>c. c \<noteq> sep) r"
  using assms by (simp add: split_at_first_sep split_first_piece)

lemma dotted_decomposition:
  assumes "sep \<in> set seg"
  shows "\<exists>a b r. seg = a @ sep # b @ r \<and> sep \<notin> set a \<and> sep \<notin> set b \<and> (r = [] \<or> hd r = sep)"
proof -
  let ?P = "\<lambda>c. c \<noteq> sep"
  let ?a = "takeWhile ?P seg"
  from assms have ne: "dropWhile ?P seg \<noteq> []" by (simp add: dropWhile_eq_Nil_conv)
  then have "hd (dropWhile ?P seg) = sep" using hd_dropWhile [of ?P seg] by simp
  with ne obtain rest where rest: "dropWhile ?P seg = sep # rest"
    by (cases "dropWhile ?P seg") auto
  let ?b = "takeWhile ?P rest" and ?r = "dropWhile ?P rest"
  have "seg = ?a @ sep # ?b @ ?r"
    using takeWhile_dropWhile_id [of ?P seg] rest by simp
  moreover have "sep \<notin> set ?a" and "sep \<notin> set ?b"
    by (auto dest: set_takeWhileD)
  moreover have "?r = [] \<or> hd ?r = sep"
    using hd_dropWhile [of ?P rest] by auto
  ultimately show ?thesis by blast
qed

section \<open>Properties of \<open>schema\<close>\<close>

lemma schema_dotted:
  assumes "last (split CHR ''/'' url) = a @ CHR ''.'' # rest" and "CHR ''.'' \<notin> set a"
  shows "schema url = \<lparr>moduleName = a, version = takeWhile (\<lambda>c. c \<noteq> CHR ''.'') rest\<rparr>"
  using assms by (simp add: schema_def Let_def split_at_first_sep split_first_piece)

lemma schema_undotted:
  assumes "CHR ''.'' \<notin> set (last (split CHR ''/'' url))"
  shows "schema url = \<lparr>moduleName = last (split CHR ''/'' url), version = ''''\<rparr>"
  using assms by (simp add: schema_def Let_def)

text \<open>
  C5. Let \<open>seg\<close> be the final \<open>/\<close>-delimited segment of the locator: the locator is
  \<open>p @ seg\<close>, \<open>seg\<close> has no slash, and \<open>p\<close> is empty or ends with a slash. If \<open>seg\<close>
  contains a dot, that is \<open>seg = a.b\<close> followed by \<open>r\<close>, where \<open>a\<close> and \<open>b\<close> have no dot
  and \<open>r\<close> is empty or starts with the second dot, then \<open>schema\<close> returns \<open>a\<close>, the text
  before the first dot, as the module name and \<open>b\<close>, the text between the first dot and
  the second (or the end), as the version; every segment with a dot is of that form.
  If \<open>seg\<close> contains no dot, the module name is \<open>seg\<close> and the version is empty.
\<close>

theorem schema_name_and_version:
  assumes "url = p @ seg" and "CHR ''/'' \<notin> set seg" and "p = [] \<or> last p = CHR ''/''"
  shows "(\<forall>a b r. seg = a @ CHR ''.'' # b @ r \<and> CHR ''.'' \<notin> set a \<and> CHR ''.'' \<notin> set b
                  \<and> (r = [] \<or> hd r = CHR ''.'')
            \<longrightarrow> schema url = \<lparr>moduleName = a, version = b\<rparr>)
       \<and> (CHR ''.'' \<in> set seg \<longrightarrow>
            (\<exists>a b r. seg = a @ CHR ''.'' # b @ r \<and> CHR ''.'' \<notin> set a \<and> CHR ''.'' \<notin> set b
                     \<and> (r = [] \<or> hd r = CHR ''.'')
                     \<and> schema url = \<lparr>moduleName = a, version = b\<rparr>))
       \<and> (CHR ''.'' \<notin> set seg \<longrightarrow> schema url = \<lparr>moduleName = seg, version = ''''\<rparr>)"
proof -
  have seg: "last (split CHR ''/'' url) = seg"
    using assms by (simp add: last_split_segment)
  have dotted: "schema url = \<lparr>moduleName = a, version = b\<rparr>"
    if "seg = a @ CHR ''.'' # b @ r" and "CHR ''.'' \<notin> set a" and "CHR ''.'' \<notin> set b"
      and "r = [] \<or> hd r = CHR ''.''" for a b r
  proof -
    have "takeWhile (\<lambda>c. c \<noteq> CHR ''.'') (b @ r) = b"
      using that(3,4) by (cases r) (auto simp: takeWhile_tail)
    then show ?thesis
      using schema_dotted [of url a "b @ r"] seg that(1,2) by simp
  qed
  have undotted: "schema url = \<lparr>moduleName = seg, version = ''''\<rparr>" if "CHR ''.'' \<notin> set seg"
    using schema_undotted [of url] seg that by simp
  have covered: "\<exists>a b r. seg = a @ CHR ''.'' # b @ r \<and> CHR ''.'' \<notin> set a \<and> CHR ''.'' \<notin> set b
                     \<and> (r = [] \<or> hd r = CHR ''.'')
                     \<and> schema url = \<lparr>moduleName = a, version = b\<rparr>" if "CHR ''.'' \<in> set seg"
    using dotted_decomposition [OF that] dotted by blast
  from dotted covered undotted show ?thesis by blast
qed

theorem schema_name_and_version_witness:
  "schema ''/x/missing.v2.js'' = \<lparr>moduleName = ''missing'', version = ''v2''\<rparr>
   \<and> schema ''/modules/bustMe'' = \<lparr>moduleName = ''bustMe'', version = ''''\<rparr>"
proof -
  have 1: "''/x/missing.v2.js'' = ''/x/'' @ ''missing.v2.js''" by simp
  have 2: "CHR ''/'' \<notin> set ''missing.v2.js''" by simp
  have 3: "''/x/'' = [] \<or> last ''/x/'' = CHR ''/''" by simp
  have 4: "''missing.v2.js'' = ''missing'' @ CHR ''.'' # ''v2'' @ ''.js''
     \<and> CHR ''.'' \<notin> set ''missing'' \<and> CHR ''.'' \<notin> set ''v2''
     \<and> (''.js'' = [] \<or> hd ''.js'' = CHR ''.'')" by simp
  have 5: "''/modules/bustMe'' = ''/modules/'' @ ''bustMe''" by simp
  have 6: "CHR ''/'' \<notin> set ''bustMe''" by simp
  have 7: "''/modules/'' = [] \<or> last ''/modules/'' = CHR ''/''" by simp
  have 8: "CHR ''.'' \<notin> set ''bustMe''" by simp
  show ?thesis
    using schema_name_and_version [OF 1 2 3, THEN conjunct1, rule_format, OF 4]
      schema_name_and_version [OF 5 6 7, THEN conjunct2, THEN conjunct2, rule_format, OF 8]
    by (rule conjI)
qed

text \<open>
  C6, as stated: for a segment with several dots the version would be everything after
  the first dot, \<open>v2.js\<close> for \<open>missing.v2.js\<close>. The code splits at every dot and takes
  the piece of index 1, which is \<open>v2\<close>.
\<close>

theorem schema_version_counterexample:
  "version (schema ''/x/missing.v2.js'') = ''v2''
   \<and> version (schema ''/x/missing.v2.js'') \<noteq> ''v2.js''"
  by (simp add: schema_def)

text \<open>
  C6, amended. For every locator whose final path segment contains a dot, \<open>schema\<close>
  splits the segment at every dot and returns as version the second piece: the text
  after the first dot up to the next dot, which is the entire part after the first dot
  exactly when that part has no further dot.
\<close>

theorem schema_version_second_piece:
  assumes "url = p @ seg" and "CHR ''/'' \<notin> set seg" and "p = [] \<or> last p = CHR ''/''"
    and "seg = a @ CHR ''.'' # rest" and "CHR ''.'' \<notin> set a"
  shows "version (schema url) = split CHR ''.'' seg ! 1
       \<and> version (schema url) = takeWhile (\<lambda>c. c \<noteq> CHR ''.'') rest
       \<and> (version (schema url) = rest \<longleftrightarrow> CHR ''.'' \<notin> set rest)"
proof -
  have seg: "last (split CHR ''/'' url) = seg"
    using assms(1-3) by (simp add: last_split_segment)
  have v: "version (schema url) = takeWhile (\<lambda>c. c \<noteq> CHR ''.'') rest"
    using schema_dotted [of url a rest] seg assms(4,5) by simp
  have "split CHR ''.'' seg ! 1 = takeWhile (\<lambda>c. c \<noteq> CHR ''.'') rest"
    using assms(4,5) split_second_piece [of "CHR ''.''" a rest] by simp
  moreover have "takeWhile (\<lambda>c. c \<noteq> CHR ''.'') rest = rest \<longleftrightarrow> CHR ''.'' \<notin> set rest"
    by (auto simp: takeWhile_eq_all_conv)
  ultimately show ?thesis using v by simp
qed

theorem schema_version_second_piece_witness:
  "version (schema ''/lib/jquery.min.js'') = ''min''
   \<and> version (schema ''/modules/bustMe.js'') = ''js''"
proof -
  have 1: "''/lib/jquery.min.js'' = ''/lib/'' @ ''jquery.min.js''" by simp
  have 2: "CHR ''/'' \<notin> set ''jquery.min.js''" by simp
  have 3: "''/lib/'' = [] \<or> last ''/lib/'' = CHR ''/''" by simp
  have 4: "''jquery.min.js'' = ''jquery'' @ CHR ''.'' # ''min.js''" by simp
  have 5: "CHR ''.'' \<notin> set ''jquery''" by simp
  have 6: "''/modules/bustMe.js'' = ''/modules/'' @ ''bustMe.js''" by simp
  have 7: "CHR ''/'' \<notin> set ''bustMe.js''" by simp
  have 8: "''/modules/'' = [] \<or> last ''/modules/'' = CHR ''/''" by simp
  have 9: "''bustMe.js'' = ''bustMe'' @ CHR ''.'' # ''js''" by simp
  have 10: "CHR ''.'' \<notin> set ''bustMe''" by simp
  have "version (schema ''/lib/jquery.min.js'') = ''min''"
    using schema_version_second_piece [OF 1 2 3 4 5, THEN conjunct2, THEN conjunct1] by simp
  moreover have "version (schema ''/modules/bustMe.js'') = ''js''"
    using schema_version_second_piece [OF 6 7 8 9 10, THEN conjunct2, THEN conjunct1] by simp
  ultimately show ?thesis by (rule conjI)
qed


section \<open>The decimal rendering of the token\<close>

lemma digit_inj:
  assumes "''0123456789'' ! a = ''0123456789'' ! b" and "a < 10" and "b < 10"
  shows "a = b"
proof -
  have "distinct ''0123456789''" by simp
  moreover have "a < length ''0123456789''" "b < length ''0123456789''"
    using assms(2,3) by simp_all
  ultimately show ?thesis
    using assms(1) nth_eq_iff_index_eq by blast
qed

lemma digits_not_Nil: "digits n \<noteq> []"
  by (subst digits.simps) simp

lemma digit_is_digit: "k < 10 \<Longrightarrow> ''0123456789'' ! k \<in> set ''0123456789''"
  using nth_mem [of k "''0123456789''"] by simp

lemma digits_are_digits: "set (digits n) \<subseteq> set ''0123456789''"
proof (induction n rule: digits.induct)
  case (1 n)
  show ?case
  proof (cases "n < 10")
    case True
    then have "digits n = [''0123456789'' ! n]" by (subst digits.simps) simp
    with True digit_is_digit [of n] show ?thesis by simp
  next
    case False
    then have "digits n = digits (n div 10) @ [''0123456789'' ! (n mod 10)]"
      by (subst digits.simps) simp
    moreover have "''0123456789'' ! (n mod 10) \<in> set ''0123456789''"
      by (rule digit_is_digit) simp
    ultimately show ?thesis using "1.IH" [OF False] by simp
  qed
qed

lemma digits_inj: "digits m = digits n \<Longrightarrow> m = n"
proof (induction m arbitrary: n rule: digits.induct)
  case (1 m)
  show ?case
  proof (cases "m < 10")
    case True
    then have m: "digits m = [''0123456789'' ! m]" by (subst digits.simps) simp
    show ?thesis
    proof (cases "n < 10")
      case True
      then have "digits n = [''0123456789'' ! n]" by (subst digits.simps) simp
      with m "1.prems" have "''0123456789'' ! m = ''0123456789'' ! n" by simp
      then show ?thesis using \<open>m < 10\<close> \<open>n < 10\<close> by (rule digit_inj)
    next
      case False
      then have "digits n = digits (n div 10) @ [''0123456789'' ! (n mod 10)]"
        by (subst digits.simps) simp
      with m "1.prems" have "digits (n div 10) = []" by simp
      then show ?thesis by (simp add: digits_not_Nil)
    qed
  next
    case False
    then have m: "digits m = digits (m div 10) @ [''0123456789'' ! (m mod 10)]"
      by (subst digits.simps) simp
    show ?thesis
    proof (cases "n < 10")
      case True
      then have "digits n = [''0123456789'' ! n]" by (subst digits.simps) simp
      with m "1.prems" have "digits (m div 10) = []" by simp
      then show ?thesis by (simp add: digits_not_Nil)
    next
      case n: False
      then have "digits n = digits (n div 10) @ [''0123456789'' ! (n mod 10)]"
        by (subst digits.simps) simp
      with m "1.prems" have eq: "digits (m div 10) = digits (n div 10)"
        and d: "''0123456789'' ! (m mod 10) = ''0123456789'' ! (n mod 10)"
        by simp_all
      from "1.IH" [OF False eq] have "m div 10 = n div 10" .
      moreover from d have "m mod 10 = n mod 10"
        by (rule digit_inj) simp_all
      ultimately show ?thesis
        by (metis div_mult_mod_eq)
    qed
  qed
qed

lemma decimal_inj: "decimal s = decimal t \<Longrightarrow> s = t"
proof -
  assume eq: "decimal s = decimal t"
  have no_minus: "CHR ''-'' # xs \<noteq> digits n" for xs n
  proof
    assume "CHR ''-'' # xs = digits n"
    then have "CHR ''-'' \<in> set (digits n)" by (metis list.set_intros(1))
    with digits_are_digits [of n] show False by auto
  qed
  show "s = t"
  proof (cases "s < 0")
    case s: True
    show ?thesis
    proof (cases "t < 0")
      case True
      with s eq have "digits (nat (- s)) = digits (nat (- t))" by (simp add: decimal_def)
      then have "nat (- s) = nat (- t)" by (rule digits_inj)
      with s True show ?thesis by simp
    next
      case False
      with s eq no_minus show ?thesis by (simp add: decimal_def)
    qed
  next
    case s: False
    show ?thesis
    proof (cases "t < 0")
      case True
      with s eq no_minus [of "digits (nat (- t))" "nat s"] show ?thesis
        by (simp add: decimal_def)
    next
      case False
      with s eq have "digits (nat s) = digits (nat t)" by (simp add: decimal_def)
      then have "nat s = nat t" by (rule digits_inj)
      with s False show ?thesis by simp
    qed
  qed
qed

lemma cacheBusted_inj: "cacheBusted module s = cacheBusted module t \<longleftrightarrow> s = t"
  by (auto simp: cacheBusted_def dest: decimal_inj)

lemma decimal_example: "decimal 1700000000000 = ''1700000000000''"
  by (simp add: decimal_def digits.simps)

lemma decimal_later: "decimal 1700000000999 = ''1700000000999''"
  by (simp add: decimal_def digits.simps)

section \<open>Frame properties of the loader\<close>

lemma emit_fields [simp]:
  "loadedModules (emit ev w) = loadedModules w"
  "head_children (emit ev w) = head_children w"
  "promises (emit ev w) = promises w"
  "trace (emit ev w) = trace w @ [ev]"
  by (simp_all add: emit_def)

lemma settle_frame [simp]:
  "loadedModules (settle p s w) = loadedModules w"
  "head_children (settle p s w) = head_children w"
  "length (promises (settle p s w)) = length (promises w)"
  by (simp_all add: settle_def)

lemma markLoaded_frame [simp]:
  "head_children (markLoaded n w) = head_children w"
  "promises (markLoaded n w) = promises w"
  "trace (markLoaded n w) = trace w"
  by (simp_all add: markLoaded_def)

lemma markLoaded_registry:
  "loadedModules (markLoaded n w) = (if n = ''__proto__'' then loadedModules w else insert n (loadedModules w))"
  by (simp add: markLoaded_def)

lemma report_failure_frame:
  "loadedModules (snd (report_failure options thisArg p e w)) = loadedModules w"
  "head_children (snd (report_failure options thisArg p e w)) = head_children w"
  "length (promises (snd (report_failure options thisArg p e w))) = length (promises w)"
  by (simp_all add: report_failure_def reject_def Let_def split: option.splits)

lemma try_block_registry:
  "loadedModules (snd (try_block h t module options thisArg p w)) = loadedModules w"
  by (simp add: try_block_def resolve_def Let_def split: option.splits sum.splits)

lemma try_block_promises:
  "length (promises (snd (try_block h t module options thisArg p w))) = length (promises w)"
  by (simp add: try_block_def resolve_def Let_def split: option.splits sum.splits)

lemma executor_registry:
  "loadedModules (snd (executor h t module options thisArg p w)) = loadedModules w"
  unfolding executor_def
  by (cases "try_block h t module options thisArg p w")
    (use try_block_registry [of h t module options thisArg p w] in
      \<open>auto simp: report_failure_frame split: option.splits\<close>)

lemma executor_promises:
  "length (promises (snd (executor h t module options thisArg p w))) = length (promises w)"
  unfolding executor_def
  by (cases "try_block h t module options thisArg p w")
    (use try_block_promises [of h t module options thisArg p w] in
      \<open>auto simp: report_failure_frame split: option.splits\<close>)

lemma load_registry: "loadedModules (snd (load h t module oa thisArg w)) = loadedModules w"
  unfolding load_def Let_def
  by (cases "executor h t module (default_options oa) thisArg (length (promises w))
               (w\<lparr>promises := promises w @ [Pending]\<rparr>)")
    (use executor_registry [of h t module "default_options oa" thisArg "length (promises w)"
          "w\<lparr>promises := promises w @ [Pending]\<rparr>"] in
      \<open>auto simp: reject_def split: option.splits\<close>)

lemma load_allocates:
  "fst (load h t module oa thisArg w) = length (promises w)"
  "length (promises (snd (load h t module oa thisArg w))) = Suc (length (promises w))"
  unfolding load_def Let_def
  by (cases "executor h t module (default_options oa) thisArg (length (promises w))
               (w\<lparr>promises := promises w @ [Pending]\<rparr>)";
      use executor_promises [of h t module "default_options oa" thisArg "length (promises w)"
          "w\<lparr>promises := promises w @ [Pending]\<rparr>"] in
      \<open>auto simp: reject_def split: option.splits\<close>)+

lemma fire_error_registry: "loadedModules (fire_error i e w) = loadedModules w"
proof -
  have "loadedModules (onerror el e w) = loadedModules w" for el
    unfolding onerror_def
    by (cases "report_failure (Some (el_options el)) (el_thisArg el) (el_promise el) e w")
      (use report_failure_frame(1) [of "Some (el_options el)" "el_thisArg el" "el_promise el" e w] in
        \<open>auto split: option.splits\<close>)
  then show ?thesis by (simp add: fire_error_def)
qed

lemma fire_error_head: "head_children (fire_error i e w) = head_children w"
proof -
  have "head_children (onerror el e w) = head_children w" for el
    unfolding onerror_def
    by (cases "report_failure (Some (el_options el)) (el_thisArg el) (el_promise el) e w")
      (use report_failure_frame(2) [of "Some (el_options el)" "el_thisArg el" "el_promise el" e w] in
        \<open>auto split: option.splits\<close>)
  then show ?thesis by (simp add: fire_error_def)
qed

lemma fire_load_registry:
  "loadedModules (fire_load i w) =
     (if i < length (head_children w) \<and> el_moduleName (head_children w ! i) \<noteq> ''__proto__''
      then insert (el_moduleName (head_children w ! i)) (loadedModules w)
      else loadedModules w)"
  by (simp add: fire_load_def onload_def resolve_def markLoaded_registry)

lemma step_registry_mono: "loadedModules w \<subseteq> loadedModules (step h w a)"
  by (cases a) (auto simp: load_registry fire_error_registry fire_load_registry)

lemma run_registry_mono: "loadedModules w \<subseteq> loadedModules (run h w actions)"
  unfolding run_def
proof (induction actions arbitrary: w)
  case Nil
  show ?case by simp
next
  case (Cons a actions)
  have "loadedModules w \<subseteq> loadedModules (step h w a)" by (rule step_registry_mono)
  also have "\<dots> \<subseteq> loadedModules (foldl (step h) (step h w a) actions)" by (rule Cons.IH)
  finally show ?case by simp
qed

section \<open>The three outcomes of a call of load\<close>

lemma load_when_loaded:
  assumes "isLoaded w (moduleName (schema module))"
  shows "load h t module oa thisArg w =
           (length (promises w),
            w\<lparr>promises := promises w @ [Fulfilled],
              trace := trace w @
                [ConsoleWarn (''Module '' @ moduleName (schema module) @ '' is already loaded.''),
                 Settled (length (promises w)) Fulfilled]\<rparr>)"
  using assms
  by (simp add: load_def executor_def try_block_def resolve_def settle_def emit_def isLoaded_def Let_def)

lemma try_block_raises:
  assumes "try_block h t module options thisArg p w = (Some e, w1)"
  shows "w1 = w"
  using assms
  by (auto simp: try_block_def Let_def split: if_splits sum.splits option.splits)

lemma load_caught:
  assumes "try_block h t module (default_options oa) thisArg (length (promises w))
             (w\<lparr>promises := promises w @ [Pending]\<rparr>) = (Some e, w1)"
  shows "load h t module oa thisArg w =
           (length (promises w),
            (case default_options oa of
               None \<Rightarrow>
                 w\<lparr>promises := promises w @ [Rejected TypeError],
                   trace := trace w @ [ConsoleError e, Settled (length (promises w)) (Rejected TypeError)]\<rparr>
             | Some opts \<Rightarrow>
                 (case opt_onError opts of
                    None \<Rightarrow>
                      w\<lparr>promises := promises w @ [Rejected e],
                        trace := trace w @ [ConsoleError e, Settled (length (promises w)) (Rejected e)]\<rparr>
                  | Some hk \<Rightarrow>
                      w\<lparr>promises := promises w @
                          [Rejected (case hk (binding thisArg) e of None \<Rightarrow> e | Some y \<Rightarrow> y)],
                        trace := trace w @
                          [ConsoleError e, OnErrorCalled (binding thisArg) e,
                           Settled (length (promises w))
                             (Rejected (case hk (binding thisArg) e of None \<Rightarrow> e | Some y \<Rightarrow> y))]\<rparr>)))"
proof -
  have w1: "w1 = w\<lparr>promises := promises w @ [Pending]\<rparr>"
    using assms by (rule try_block_raises)
  show ?thesis
    using assms unfolding w1
    by (simp add: load_def executor_def report_failure_def reject_def settle_def emit_def Let_def
        split: option.splits)
qed

lemma load_injects:
  assumes "\<not> isLoaded w (moduleName (schema module))"
    and "URL_href h (cacheBusted module t) (origin h) = Inr href"
    and "createElement_fails h = None" and "appendChild_fails h = None"
    and "default_options oa = Some opts"
  shows "load h t module oa thisArg w =
           (length (promises w),
            w\<lparr>head_children := head_children w @
                 [\<lparr>el_src = href, el_defer = True, el_type = ''application/javascript'',
                   el_async = (if opt_async opts \<noteq> Bool False then Some True else None),
                   el_moduleName = moduleName (schema module),
                   el_promise = length (promises w),
                   el_options = opts, el_thisArg = thisArg\<rparr>],
              promises := promises w @ [Pending]\<rparr>)"
  using assms
  by (simp add: load_def executor_def try_block_def isLoaded_def Let_def)

lemma load_unchanged_or_injected:
  "head_children (snd (load h t module oa thisArg w)) = head_children w
   \<or> (\<exists>el. head_children (snd (load h t module oa thisArg w)) = head_children w @ [el]
          \<and> URL_href h (cacheBusted module t) (origin h) = Inr (el_src el)
          \<and> \<not> isLoaded w (moduleName (schema module)))"
proof (cases "try_block h t module (default_options oa) thisArg (length (promises w))
                (w\<lparr>promises := promises w @ [Pending]\<rparr>)")
  case (Pair x w1)
  show ?thesis
  proof (cases x)
    case (Some e)
    with Pair have "head_children (snd (load h t module oa thisArg w)) = head_children w"
      by (simp add: load_caught split: option.splits)
    then show ?thesis ..
  next
    case None
    with Pair have l: "load h t module oa thisArg w = (length (promises w), w1)"
      by (simp add: load_def executor_def)
    from Pair None show ?thesis unfolding l
      by (auto simp: try_block_def resolve_def isLoaded_def Let_def
          split: if_splits sum.splits option.splits)
  qed
qed

lemma try_block_raises_not_loaded:
  assumes "fst (try_block h t module options thisArg p w) \<noteq> None"
  shows "\<not> isLoaded w (moduleName (schema module))"
  using assms
  by (auto simp: try_block_def Let_def split: if_splits)

section \<open>The scenarios on the example host\<close>

lemma schema_bustMe: "schema ''/modules/bustMe.js'' = \<lparr>moduleName = ''bustMe'', version = ''js''\<rparr>"
  by (simp add: schema_def)

lemma schema_missing: "schema ''/x/missing.v2.js'' = \<lparr>moduleName = ''missing'', version = ''v2''\<rparr>"
  by (simp add: schema_def)

lemma schema_a_js: "moduleName (schema ''/a.js?v=1'') = ''a''"
  by (simp add: schema_def)

lemma first_load:
  "load example_host 1700000000000 ''/modules/bustMe.js'' NotPassed Undefined initial_world =
     (0, \<lparr>loadedModules = {},
          head_children =
            [\<lparr>el_src = ''https://example.org/modules/bustMe.js?cacheBuster=1700000000000'',
              el_defer = True, el_type = ''application/javascript'', el_async = Some True,
              el_moduleName = ''bustMe'', el_promise = 0,
              el_options = \<lparr>opt_async = Undefined, opt_onError = None\<rparr>,
              el_thisArg = Undefined\<rparr>],
          promises = [Pending], trace = []\<rparr>)"
  by (simp add: load_def executor_def try_block_def isLoaded_def Object_prototype_keys_def
      schema_bustMe cacheBusted_def decimal_example example_host_def initial_world_def)

lemma loaded_world_eq:
  "loaded_world =
     \<lparr>loadedModules = {''bustMe''},
          head_children =
            [\<lparr>el_src = ''https://example.org/modules/bustMe.js?cacheBuster=1700000000000'',
              el_defer = True, el_type = ''application/javascript'', el_async = Some True,
              el_moduleName = ''bustMe'', el_promise = 0,
              el_options = \<lparr>opt_async = Undefined, opt_onError = None\<rparr>,
              el_thisArg = Undefined\<rparr>],
          promises = [Fulfilled], trace = [Settled 0 Fulfilled]\<rparr>"
  by (simp add: loaded_world_def first_load fire_load_def onload_def resolve_def settle_def
      markLoaded_def emit_def)

lemma load_missing:
  "load example_host 1700000000000 ''/x/missing.v2.js''
      (Passed \<lparr>opt_async = Undefined, opt_onError = Some hk\<rparr>) thisArg initial_world =
     (0, \<lparr>loadedModules = {},
          head_children =
            [\<lparr>el_src = ''https://example.org/x/missing.v2.js?cacheBuster=1700000000000'',
              el_defer = True, el_type = ''application/javascript'', el_async = Some True,
              el_moduleName = ''missing'', el_promise = 0,
              el_options = \<lparr>opt_async = Undefined, opt_onError = Some hk\<rparr>,
              el_thisArg = thisArg\<rparr>],
          promises = [Pending], trace = []\<rparr>)"
  by (simp add: load_def executor_def try_block_def isLoaded_def Object_prototype_keys_def
      schema_missing cacheBusted_def decimal_example example_host_def initial_world_def)

lemma load_bustMe_again:
  assumes "''bustMe'' \<notin> loadedModules w"
  shows "load example_host t ''/modules/bustMe.js'' NotPassed Undefined w =
     (length (promises w),
      w\<lparr>head_children := head_children w @
            [\<lparr>el_src = ''https://example.org/modules/bustMe.js?cacheBuster='' @ decimal t,
              el_defer = True, el_type = ''application/javascript'', el_async = Some True,
              el_moduleName = ''bustMe'', el_promise = length (promises w),
              el_options = \<lparr>opt_async = Undefined, opt_onError = None\<rparr>,
              el_thisArg = Undefined\<rparr>],
         promises := promises w @ [Pending]\<rparr>)"
  using assms
  by (simp add: load_def executor_def try_block_def isLoaded_def Object_prototype_keys_def
      schema_bustMe cacheBusted_def example_host_def Let_def)

lemma try_block_broken_host:
  "try_block broken_host 1700000000000 ''/modules/bustMe.js'' (Some opts) thisArg 0
     (initial_world\<lparr>promises := promises initial_world @ [Pending]\<rparr>)
   = (Some (ErrorObj 5), initial_world\<lparr>promises := promises initial_world @ [Pending]\<rparr>)"
  by (simp add: try_block_def isLoaded_def Object_prototype_keys_def schema_bustMe
      broken_host_def example_host_def initial_world_def)

lemma try_block_null_options:
  "try_block example_host 1700000000000 ''/modules/bustMe.js'' None thisArg 0
     (initial_world\<lparr>promises := promises initial_world @ [Pending]\<rparr>)
   = (Some TypeError, initial_world\<lparr>promises := promises initial_world @ [Pending]\<rparr>)"
  by (simp add: try_block_def isLoaded_def Object_prototype_keys_def schema_bustMe
      example_host_def initial_world_def)

section \<open>Elements and promises along a run\<close>

lemma fire_load_head: "head_children (fire_load i w) = head_children w"
  by (simp add: fire_load_def onload_def resolve_def)

lemma fire_load_promises_length: "length (promises (fire_load i w)) = length (promises w)"
  by (simp add: fire_load_def onload_def resolve_def)

lemma fire_error_promises_length: "length (promises (fire_error i e w)) = length (promises w)"
proof -
  have "length (promises (onerror el e w)) = length (promises w)" for el
    unfolding onerror_def
    by (cases "report_failure (Some (el_options el)) (el_thisArg el) (el_promise el) e w")
      (use report_failure_frame(3) [of "Some (el_options el)" "el_thisArg el" "el_promise el" e w] in
        \<open>auto split: option.splits\<close>)
  then show ?thesis by (simp add: fire_error_def)
qed

lemma step_head_prefix: "\<exists>els. head_children (step h w a) = head_children w @ els"
proof (cases a)
  case (CallLoad t module oa thisArg)
  then show ?thesis
    using load_unchanged_or_injected [of h t module oa thisArg w] by auto
next
  case (FireLoad i)
  then show ?thesis by (simp add: fire_load_head)
next
  case (FireError i e)
  then show ?thesis by (simp add: fire_error_head)
qed

lemma run_head_prefix: "\<exists>els. head_children (run h w actions) = head_children w @ els"
  unfolding run_def
proof (induction actions arbitrary: w)
  case Nil
  show ?case by simp
next
  case (Cons a actions)
  obtain els where 1: "head_children (step h w a) = head_children w @ els"
    using step_head_prefix by blast
  obtain els' where "head_children (foldl (step h) (step h w a) actions)
      = head_children (step h w a) @ els'"
    using Cons.IH by blast
  with 1 show ?case by simp
qed

lemma step_promises_length: "length (promises w) \<le> length (promises (step h w a))"
  by (cases a) (simp_all add: load_allocates fire_load_promises_length fire_error_promises_length)

lemma run_promises_length: "length (promises w) \<le> length (promises (run h w actions))"
  unfolding run_def
proof (induction actions arbitrary: w)
  case Nil
  show ?case by simp
next
  case (Cons a actions)
  have "length (promises w) \<le> length (promises (step h w a))" by (rule step_promises_length)
  also have "\<dots> \<le> length (promises (foldl (step h) (step h w a) actions))" by (rule Cons.IH)
  finally show ?case by simp
qed

lemma load_promises_append:
  "\<exists>s. promises (snd (load h t module oa thisArg w)) = promises w @ [s]"
proof (cases "try_block h t module (default_options oa) thisArg (length (promises w))
                (w\<lparr>promises := promises w @ [Pending]\<rparr>)")
  case (Pair x w1)
  show ?thesis
  proof (cases x)
    case (Some e)
    with Pair show ?thesis
      by (simp add: load_caught split: option.splits)
  next
    case None
    with Pair have l: "load h t module oa thisArg w = (length (promises w), w1)"
      by (simp add: load_def executor_def)
    from Pair None show ?thesis unfolding l
      by (auto simp: try_block_def resolve_def settle_def emit_def Let_def
          split: if_splits sum.splits option.splits)
  qed
qed

lemma try_block_host_raises:
  assumes "\<not> isLoaded w (moduleName (schema module))"
    and "URL_href h (cacheBusted module t) (origin h) = Inl e
         \<or> (\<exists>href. URL_href h (cacheBusted module t) (origin h) = Inr href
               \<and> (createElement_fails h = Some e
                    \<or> (createElement_fails h = None
                         \<and> ((options = None \<and> e = TypeError)
                              \<or> (options \<noteq> None \<and> appendChild_fails h = Some e)))))"
  shows "try_block h t module options thisArg p w = (Some e, w)"
  using assms
  by (auto simp: try_block_def Let_def)

lemma load_injected_element:
  assumes "length (head_children (snd (load h t module oa thisArg w))) = Suc (length (head_children w))"
  shows "\<exists>href opts. default_options oa = Some opts
       \<and> load h t module oa thisArg w =
           (length (promises w),
            w\<lparr>head_children := head_children w @
                 [\<lparr>el_src = href, el_defer = True, el_type = ''application/javascript'',
                   el_async = (if opt_async opts \<noteq> Bool False then Some True else None),
                   el_moduleName = moduleName (schema module),
                   el_promise = length (promises w),
                   el_options = opts, el_thisArg = thisArg\<rparr>],
              promises := promises w @ [Pending]\<rparr>)"
proof (cases "try_block h t module (default_options oa) thisArg (length (promises w))
                (w\<lparr>promises := promises w @ [Pending]\<rparr>)")
  case (Pair x w1)
  show ?thesis
  proof (cases x)
    case (Some e)
    with Pair have "head_children (snd (load h t module oa thisArg w)) = head_children w"
      by (simp add: load_caught split: option.splits)
    with assms show ?thesis by simp
  next
    case None
    with Pair have l: "load h t module oa thisArg w = (length (promises w), w1)"
      by (simp add: load_def executor_def)
    from Pair None assms have "\<exists>href opts. \<not> isLoaded w (moduleName (schema module))
        \<and> URL_href h (cacheBusted module t) (origin h) = Inr href
        \<and> createElement_fails h = None \<and> appendChild_fails h = None
        \<and> default_options oa = Some opts"
      unfolding l
      by (auto simp: try_block_def resolve_def isLoaded_def Let_def
          split: if_splits sum.splits option.splits)
    then obtain href opts where "\<not> isLoaded w (moduleName (schema module))"
      and "URL_href h (cacheBusted module t) (origin h) = Inr href"
      and "createElement_fails h = None" and "appendChild_fails h = None"
      and "default_options oa = Some opts"
      by blast
    from load_injects [OF this, of thisArg] \<open>default_options oa = Some opts\<close>
    show ?thesis by blast
  qed
qed

lemma load_when_loaded_frame:
  assumes "isLoaded w (moduleName (schema module))"
  shows "head_children (snd (load h t module oa thisArg w)) = head_children w"
    and "promises (snd (load h t module oa thisArg w)) = promises w @ [Fulfilled]"
  by (simp_all add: load_when_loaded [OF assms])

lemma fire_error_hook_returns:
  assumes "i < length (head_children w)"
    and "opt_onError (el_options (head_children w ! i)) = Some hk"
    and "el_promise (head_children w ! i) < length (promises w)"
    and "promises w ! el_promise (head_children w ! i) = Pending"
    and "hk (binding (el_thisArg (head_children w ! i))) e = None"
  shows "trace (fire_error i e w) =
           trace w @
             [ConsoleError e,
              OnErrorCalled (binding (el_thisArg (head_children w ! i))) e,
              Settled (el_promise (head_children w ! i)) (Rejected e)]"
    and "promises (fire_error i e w) = (promises w)[el_promise (head_children w ! i) := Rejected e]"
  using assms
  by (simp_all add: fire_error_def onerror_def report_failure_def reject_def settle_def emit_def
      Let_def)

lemma load_missing_any:
  assumes "''missing'' \<notin> loadedModules w" and "default_options oa = Some opts"
  shows "load example_host t ''/x/missing.v2.js'' oa thisArg w =
     (length (promises w),
      w\<lparr>head_children := head_children w @
            [\<lparr>el_src = ''https://example.org/x/missing.v2.js?cacheBuster='' @ decimal t,
              el_defer = True, el_type = ''application/javascript'',
              el_async = (if opt_async opts \<noteq> Bool False then Some True else None),
              el_moduleName = ''missing'', el_promise = length (promises w),
              el_options = opts, el_thisArg = thisArg\<rparr>],
         promises := promises w @ [Pending]\<rparr>)"
  using assms
  by (simp add: load_def executor_def try_block_def isLoaded_def Object_prototype_keys_def
      schema_missing cacheBusted_def example_host_def Let_def)

section \<open>Deduplication and the registry\<close>

text \<open>
  C1. Let the module name of a locator be recorded in \<open>loadedModules\<close>. Then after any
  further calls and events the name is still recorded, and a call of \<open>load\<close> with that
  locator, at any reading of the clock and on any host, returns a new promise that is
  already fulfilled, writes one warning, and changes nothing else: no element is created
  or inserted, and the result does not depend on the clock, so no token is made.
  In every state, the registry empty or not, a step of the process that changes the
  registry is a \<open>load\<close> event of an element of the document, and it adds the module
  name of that element; a call of \<open>load\<close> and an \<open>error\<close> event leave the registry
  as it is.
\<close>

theorem load_deduplicated:
  "(moduleName (schema module) \<in> loadedModules w \<longrightarrow>
      (\<forall>actions. moduleName (schema module) \<in> loadedModules (run h w actions)
            \<and> load h' t module oa thisArg (run h w actions) =
                (length (promises (run h w actions)),
                 (run h w actions)
                   \<lparr>promises := promises (run h w actions) @ [Fulfilled],
                    trace := trace (run h w actions) @
                      [ConsoleWarn (''Module '' @ moduleName (schema module) @ '' is already loaded.''),
                       Settled (length (promises (run h w actions))) Fulfilled]\<rparr>)))
   \<and> (\<forall>a. loadedModules (step h w a) \<noteq> loadedModules w \<longrightarrow>
          (\<exists>i. a = FireLoad i \<and> i < length (head_children w)
             \<and> loadedModules (step h w a) = insert (el_moduleName (head_children w ! i)) (loadedModules w)))
   \<and> (\<forall>t' module' oa' thisArg'.
          loadedModules (step h w (CallLoad t' module' oa' thisArg')) = loadedModules w)
   \<and> (\<forall>i e. loadedModules (step h w (FireError i e)) = loadedModules w)"
proof -
  have stays: "moduleName (schema module) \<in> loadedModules (run h w actions)"
    if "moduleName (schema module) \<in> loadedModules w" for actions
    using that run_registry_mono [of w h actions] by blast
  have dedup: "load h' t module oa thisArg (run h w actions) =
                (length (promises (run h w actions)),
                 (run h w actions)
                   \<lparr>promises := promises (run h w actions) @ [Fulfilled],
                    trace := trace (run h w actions) @
                      [ConsoleWarn (''Module '' @ moduleName (schema module) @ '' is already loaded.''),
                       Settled (length (promises (run h w actions))) Fulfilled]\<rparr>)"
    if "moduleName (schema module) \<in> loadedModules w" for actions
    by (rule load_when_loaded) (simp add: isLoaded_def stays [OF that])
  have only: "\<exists>i. a = FireLoad i \<and> i < length (head_children w)
                 \<and> loadedModules (step h w a) = insert (el_moduleName (head_children w ! i)) (loadedModules w)"
    if "loadedModules (step h w a) \<noteq> loadedModules w" for a
    using that
    by (cases a) (auto simp: load_registry fire_error_registry fire_load_registry split: if_splits)
  have call: "loadedModules (step h w (CallLoad t' module' oa' thisArg')) = loadedModules w"
    for t' module' oa' thisArg'
    by (simp add: load_registry)
  have err: "loadedModules (step h w (FireError i e)) = loadedModules w" for i e
    by (simp add: fire_error_registry)
  from stays dedup only call err show ?thesis by blast
qed

text \<open>The second scenario of the specification, \<open>/modules/bustMe.js\<close> once more after
  the first load has succeeded, and the first scenario from the empty registry: the call
  adds no name, the \<open>load\<close> event adds \<open>bustMe\<close>.\<close>

theorem load_deduplicated_witness:
  "load example_host 1700000000555 ''/modules/bustMe.js'' NotPassed Undefined loaded_world =
     (1, loaded_world
           \<lparr>promises := [Fulfilled, Fulfilled],
            trace := [Settled 0 Fulfilled, ConsoleWarn ''Module bustMe is already loaded.'',
                      Settled 1 Fulfilled]\<rparr>)
   \<and> length (head_children (snd (load example_host 1700000000555 ''/modules/bustMe.js'' NotPassed
        Undefined loaded_world))) = 1
   \<and> loadedModules (step example_host initial_world
        (CallLoad 1700000000000 ''/modules/bustMe.js'' NotPassed Undefined)) = {}
   \<and> loadedModules (step example_host
        (step example_host initial_world
           (CallLoad 1700000000000 ''/modules/bustMe.js'' NotPassed Undefined))
        (FireLoad 0)) = {''bustMe''}"
proof -
  have 1: "moduleName (schema ''/modules/bustMe.js'') \<in> loadedModules loaded_world"
    by (simp add: schema_bustMe loaded_world_eq)
  have "load example_host 1700000000555 ''/modules/bustMe.js'' NotPassed Undefined (run example_host loaded_world []) =
     (1, loaded_world
           \<lparr>promises := [Fulfilled, Fulfilled],
            trace := [Settled 0 Fulfilled, ConsoleWarn ''Module bustMe is already loaded.'',
                      Settled 1 Fulfilled]\<rparr>)"
    using load_deduplicated [of "''/modules/bustMe.js''" loaded_world example_host example_host
        1700000000555 NotPassed Undefined, THEN conjunct1, rule_format, OF 1, of "[]", THEN conjunct2]
    by (simp add: run_def schema_bustMe loaded_world_eq)
  then have a: "load example_host 1700000000555 ''/modules/bustMe.js'' NotPassed Undefined loaded_world =
     (1, loaded_world
           \<lparr>promises := [Fulfilled, Fulfilled],
            trace := [Settled 0 Fulfilled, ConsoleWarn ''Module bustMe is already loaded.'',
                      Settled 1 Fulfilled]\<rparr>)
   \<and> length (head_children (snd (load example_host 1700000000555 ''/modules/bustMe.js'' NotPassed
        Undefined loaded_world))) = 1"
    by (simp add: run_def loaded_world_eq)
  let ?w1 = "step example_host initial_world
           (CallLoad 1700000000000 ''/modules/bustMe.js'' NotPassed Undefined)"
  have b: "loadedModules ?w1 = {}"
    using load_deduplicated [of "''/modules/bustMe.js''" initial_world example_host example_host
        0 NotPassed Undefined, THEN conjunct2, THEN conjunct2, THEN conjunct1, rule_format,
        of 1700000000000 "''/modules/bustMe.js''" NotPassed Undefined]
    by (simp add: initial_world_def)
  have ne: "loadedModules (step example_host ?w1 (FireLoad 0)) \<noteq> loadedModules ?w1"
    by (simp add: first_load fire_load_def onload_def resolve_def markLoaded_def)
  from load_deduplicated [of "''/modules/bustMe.js''" ?w1 example_host example_host
        0 NotPassed Undefined, THEN conjunct2, THEN conjunct1, rule_format, OF ne]
  obtain i where "FireLoad 0 = FireLoad i"
    and "loadedModules (step example_host ?w1 (FireLoad 0))
         = insert (el_moduleName (head_children ?w1 ! i)) (loadedModules ?w1)"
    by blast
  then have c: "loadedModules (step example_host ?w1 (FireLoad 0)) = {''bustMe''}"
    by (simp add: first_load)
  from a b c show ?thesis by blast
qed

text \<open>
  C9, as stated, would leave the name of every failing module unmarked, and the next
  call for it not deduplicated. Two calls for the same locator before either has
  settled both inject an element; when the first element loads and the second fails,
  the name is marked by the first, and a later call for it is deduplicated: it inserts
  nothing and its promise is fulfilled at once.
\<close>

theorem failed_load_race_counterexample:
  "loadedModules (run example_host initial_world
      [CallLoad 1700000000000 ''/modules/bustMe.js'' NotPassed Undefined,
       CallLoad 1700000000000 ''/modules/bustMe.js'' NotPassed Undefined,
       FireLoad 0, FireError 1 (ErrorObj 7)]) = {''bustMe''}
   \<and> promises (run example_host initial_world
      [CallLoad 1700000000000 ''/modules/bustMe.js'' NotPassed Undefined,
       CallLoad 1700000000000 ''/modules/bustMe.js'' NotPassed Undefined,
       FireLoad 0, FireError 1 (ErrorObj 7)]) = [Fulfilled, Rejected (ErrorObj 7)]
   \<and> length (head_children (run example_host initial_world
      [CallLoad 1700000000000 ''/modules/bustMe.js'' NotPassed Undefined,
       CallLoad 1700000000000 ''/modules/bustMe.js'' NotPassed Undefined,
       FireLoad 0, FireError 1 (ErrorObj 7)])) = 2
   \<and> length (head_children (snd (load example_host 1700000000999 ''/modules/bustMe.js'' NotPassed
      Undefined
      (run example_host initial_world
        [CallLoad 1700000000000 ''/modules/bustMe.js'' NotPassed Undefined,
         CallLoad 1700000000000 ''/modules/bustMe.js'' NotPassed Undefined,
         FireLoad 0, FireError 1 (ErrorObj 7)])))) = 2
   \<and> promises (snd (load example_host 1700000000999 ''/modules/bustMe.js'' NotPassed
      Undefined
      (run example_host initial_world
        [CallLoad 1700000000000 ''/modules/bustMe.js'' NotPassed Undefined,
         CallLoad 1700000000000 ''/modules/bustMe.js'' NotPassed Undefined,
         FireLoad 0, FireError 1 (ErrorObj 7)]))) = [Fulfilled, Rejected (ErrorObj 7), Fulfilled]"
proof -
  let ?w = "run example_host initial_world
      [CallLoad 1700000000000 ''/modules/bustMe.js'' NotPassed Undefined,
       CallLoad 1700000000000 ''/modules/bustMe.js'' NotPassed Undefined,
       FireLoad 0, FireError 1 (ErrorObj 7)]"
  have w: "loadedModules ?w = {''bustMe''} \<and> promises ?w = [Fulfilled, Rejected (ErrorObj 7)]
      \<and> length (head_children ?w) = 2"
    by (simp add: run_def load_bustMe_again initial_world_def fire_load_def fire_error_def
        onload_def onerror_def report_failure_def resolve_def reject_def settle_def
        markLoaded_def emit_def)
  then have "isLoaded ?w (moduleName (schema ''/modules/bustMe.js''))"
    by (simp add: isLoaded_def schema_bustMe)
  from load_when_loaded [OF this, of example_host 1700000000999 NotPassed Undefined] w
  show ?thesis by simp
qed

text \<open>
  C9, amended. A failed load leaves the registry as it was: neither an \<open>error\<close> event
  nor a call of \<open>load\<close> changes an entry of \<open>loadedModules\<close>. After an \<open>error\<close> event
  a name is marked exactly when it was marked before the event, which for the name of
  the failing module is the case only when a load of another element with that name has
  succeeded meanwhile. If it was not marked, a later call of \<open>load\<close> for a locator
  with that name, on a host whose operations succeed, is not deduplicated: it inserts one
  new element, whose source is the URL made with the clock reading of the later call.
  If it was marked, the later call is deduplicated. After a call of \<open>load\<close> that is
  not deduplicated and in which \<open>new URL\<close>, the creation or the insertion of the
  element, or the reading of \<open>options.async\<close> of \<open>null\<close> raises an exception, which
  is caught, the name of its module is not marked, and the later call inserts a new
  element in the same way.
\<close>

theorem failed_load_leaves_registry:
  assumes "URL_href h' (module' @ ''?cacheBuster='' @ decimal t') (origin h') = Inr href'"
    and "createElement_fails h' = None" and "appendChild_fails h' = None"
    and "default_options oa' = Some opts'"
  shows "loadedModules (fire_error i e w) = loadedModules w
       \<and> (\<not> isLoaded w (moduleName (schema module')) \<longrightarrow>
            \<not> isLoaded (fire_error i e w) (moduleName (schema module'))
            \<and> (\<exists>el. head_children (snd (load h' t' module' oa' thisArg' (fire_error i e w)))
                       = head_children (fire_error i e w) @ [el]
                    \<and> el_src el = href'))
       \<and> (isLoaded w (moduleName (schema module')) \<longrightarrow>
            isLoaded (fire_error i e w) (moduleName (schema module'))
            \<and> head_children (snd (load h' t' module' oa' thisArg' (fire_error i e w)))
                = head_children (fire_error i e w)
            \<and> promises (snd (load h' t' module' oa' thisArg' (fire_error i e w)))
                = promises (fire_error i e w) @ [Fulfilled])
       \<and> (fst (try_block h t module (default_options oa) thisArg (length (promises w))
                 (w\<lparr>promises := promises w @ [Pending]\<rparr>)) \<noteq> None
            \<and> moduleName (schema module') = moduleName (schema module) \<longrightarrow>
            loadedModules (snd (load h t module oa thisArg w)) = loadedModules w
            \<and> \<not> isLoaded (snd (load h t module oa thisArg w)) (moduleName (schema module))
            \<and> (\<exists>el. head_children
                        (snd (load h' t' module' oa' thisArg' (snd (load h t module oa thisArg w))))
                       = head_children (snd (load h t module oa thisArg w)) @ [el]
                    \<and> el_src el = href'))
       \<and> loadedModules (snd (load h t module oa thisArg w)) = loadedModules w
       \<and> (\<forall>x. \<not> isLoaded w (moduleName (schema module))
              \<and> (URL_href h (module @ ''?cacheBuster='' @ decimal t) (origin h) = Inl x
                   \<or> (\<exists>href. URL_href h (module @ ''?cacheBuster='' @ decimal t) (origin h) = Inr href
                         \<and> (createElement_fails h = Some x
                              \<or> (createElement_fails h = None
                                   \<and> ((default_options oa = None \<and> x = TypeError)
                                        \<or> (default_options oa \<noteq> None
                                             \<and> appendChild_fails h = Some x))))))
              \<and> moduleName (schema module') = moduleName (schema module) \<longrightarrow>
            \<not> isLoaded (snd (load h t module oa thisArg w)) (moduleName (schema module))
            \<and> (\<exists>el. head_children
                        (snd (load h' t' module' oa' thisArg' (snd (load h t module oa thisArg w))))
                       = head_children (snd (load h t module oa thisArg w)) @ [el]
                    \<and> el_src el = href'))"
proof -
  have busted: "URL_href h' (cacheBusted module' t') (origin h') = Inr href'"
    using assms(1) by (simp add: cacheBusted_def)
  have later: "\<exists>el. head_children (snd (load h' t' module' oa' thisArg' v)) = head_children v @ [el]
                    \<and> el_src el = href'"
    if "\<not> isLoaded v (moduleName (schema module'))" for v
    using load_injects [OF that busted assms(2,3,4), of thisArg'] by simp
  have event: "isLoaded (fire_error i e w) n \<longleftrightarrow> isLoaded w n" for n
    by (simp add: isLoaded_def fire_error_registry)
  have dedup: "head_children (snd (load h' t' module' oa' thisArg' (fire_error i e w)))
                = head_children (fire_error i e w)
            \<and> promises (snd (load h' t' module' oa' thisArg' (fire_error i e w)))
                = promises (fire_error i e w) @ [Fulfilled]"
    if "isLoaded w (moduleName (schema module'))"
    using load_when_loaded_frame [of "fire_error i e w" module' h' t' oa' thisArg'] that event
    by simp
  have caught: "\<not> isLoaded (snd (load h t module oa thisArg w)) (moduleName (schema module))"
    if "fst (try_block h t module (default_options oa) thisArg (length (promises w))
                 (w\<lparr>promises := promises w @ [Pending]\<rparr>)) \<noteq> None"
    using try_block_raises_not_loaded [OF that]
    by (simp add: isLoaded_def load_registry)
  have host: "\<not> isLoaded (snd (load h t module oa thisArg w)) (moduleName (schema module))"
    if "\<not> isLoaded w (moduleName (schema module))" for x
    using that by (simp add: isLoaded_def load_registry)
  have 1: "loadedModules (fire_error i e w) = loadedModules w"
    by (rule fire_error_registry)
  have 2: "\<not> isLoaded (fire_error i e w) (moduleName (schema module'))
            \<and> (\<exists>el. head_children (snd (load h' t' module' oa' thisArg' (fire_error i e w)))
                       = head_children (fire_error i e w) @ [el]
                    \<and> el_src el = href')"
    if "\<not> isLoaded w (moduleName (schema module'))"
    using that event later by blast
  have 3: "isLoaded (fire_error i e w) (moduleName (schema module'))
            \<and> head_children (snd (load h' t' module' oa' thisArg' (fire_error i e w)))
                = head_children (fire_error i e w)
            \<and> promises (snd (load h' t' module' oa' thisArg' (fire_error i e w)))
                = promises (fire_error i e w) @ [Fulfilled]"
    if "isLoaded w (moduleName (schema module'))"
    using that event dedup by blast
  have 4: "loadedModules (snd (load h t module oa thisArg w)) = loadedModules w
            \<and> \<not> isLoaded (snd (load h t module oa thisArg w)) (moduleName (schema module))
            \<and> (\<exists>el. head_children
                        (snd (load h' t' module' oa' thisArg' (snd (load h t module oa thisArg w))))
                       = head_children (snd (load h t module oa thisArg w)) @ [el]
                    \<and> el_src el = href')"
    if "fst (try_block h t module (default_options oa) thisArg (length (promises w))
                 (w\<lparr>promises := promises w @ [Pending]\<rparr>)) \<noteq> None
            \<and> moduleName (schema module') = moduleName (schema module)"
    using that caught later [of "snd (load h t module oa thisArg w)"]
    by (simp add: load_registry)
  have 5: "loadedModules (snd (load h t module oa thisArg w)) = loadedModules w"
    by (rule load_registry)
  have 6: "\<not> isLoaded (snd (load h t module oa thisArg w)) (moduleName (schema module))
            \<and> (\<exists>el. head_children
                        (snd (load h' t' module' oa' thisArg' (snd (load h t module oa thisArg w))))
                       = head_children (snd (load h t module oa thisArg w)) @ [el]
                    \<and> el_src el = href')"
    if "\<not> isLoaded w (moduleName (schema module))
              \<and> (URL_href h (module @ ''?cacheBuster='' @ decimal t) (origin h) = Inl x
                   \<or> (\<exists>href. URL_href h (module @ ''?cacheBuster='' @ decimal t) (origin h) = Inr href
                         \<and> (createElement_fails h = Some x
                              \<or> (createElement_fails h = None
                                   \<and> ((default_options oa = None \<and> x = TypeError)
                                        \<or> (default_options oa \<noteq> None
                                             \<and> appendChild_fails h = Some x))))))
              \<and> moduleName (schema module') = moduleName (schema module)" for x
    using that host later [of "snd (load h t module oa thisArg w)"]
    by simp
  from 1 2 3 4 5 6 show ?thesis by blast
qed

theorem failed_load_leaves_registry_witness:
  "el_src (last (head_children (snd (load example_host 1700000000999 ''/x/missing.v2.js''
       NotPassed Undefined
       (fire_error 0 (ErrorObj 7)
          (snd (load example_host 1700000000000 ''/x/missing.v2.js''
                  (Passed \<lparr>opt_async = Undefined, opt_onError = Some returning_hook\<rparr>) Undefined
                  initial_world)))))))
     = ''https://example.org/x/missing.v2.js?cacheBuster=1700000000999''
   \<and> length (head_children (snd (load example_host 1700000000999 ''/x/missing.v2.js''
       NotPassed Undefined
       (fire_error 0 (ErrorObj 7)
          (snd (load example_host 1700000000000 ''/x/missing.v2.js''
                  (Passed \<lparr>opt_async = Undefined, opt_onError = Some returning_hook\<rparr>) Undefined
                  initial_world)))))) = 2
   \<and> el_src (last (head_children (snd (load example_host 1700000000999 ''/modules/bustMe.js''
       NotPassed Undefined
       (snd (load broken_host 1700000000000 ''/modules/bustMe.js'' NotPassed Undefined
               initial_world))))))
     = ''https://example.org/modules/bustMe.js?cacheBuster=1700000000999''
   \<and> promises (snd (load example_host 1700000000999 ''/modules/bustMe.js'' NotPassed Undefined
       (fire_error 0 (ErrorObj 7) loaded_world))) = [Fulfilled, Fulfilled]
   \<and> length (head_children (snd (load example_host 1700000000999 ''/modules/bustMe.js'' NotPassed
       Undefined (fire_error 0 (ErrorObj 7) loaded_world)))) = 1"
proof -
  let ?w = "snd (load example_host 1700000000000 ''/x/missing.v2.js''
                  (Passed \<lparr>opt_async = Undefined, opt_onError = Some returning_hook\<rparr>) Undefined
                  initial_world)"
  let ?w' = "fire_error 0 (ErrorObj 7) ?w"
  let ?v' = "snd (load broken_host 1700000000000 ''/modules/bustMe.js'' NotPassed Undefined
                    initial_world)"
  have 1: "URL_href example_host (''/x/missing.v2.js'' @ ''?cacheBuster='' @ decimal 1700000000999)
       (origin example_host) = Inr ''https://example.org/x/missing.v2.js?cacheBuster=1700000000999''"
    by (simp add: example_host_def decimal_later)
  have 2: "createElement_fails example_host = None" by (simp add: example_host_def)
  have 3: "appendChild_fails example_host = None" by (simp add: example_host_def)
  have 4: "default_options NotPassed = Some \<lparr>opt_async = Undefined, opt_onError = None\<rparr>" by simp
  have 5: "\<not> isLoaded ?w (moduleName (schema ''/x/missing.v2.js''))"
    by (simp add: load_missing schema_missing isLoaded_def Object_prototype_keys_def)
  from failed_load_leaves_registry [OF 1 2 3 4, THEN conjunct2, THEN conjunct1, rule_format, OF 5,
      THEN conjunct2, of Undefined 0 "ErrorObj 7"]
  obtain el where "head_children (snd (load example_host 1700000000999 ''/x/missing.v2.js''
       NotPassed Undefined ?w')) = head_children ?w' @ [el]"
    and "el_src el = ''https://example.org/x/missing.v2.js?cacheBuster=1700000000999''"
    by blast
  moreover have "length (head_children ?w') = 1"
    by (simp add: fire_error_head load_missing)
  ultimately have a: "el_src (last (head_children (snd (load example_host 1700000000999
       ''/x/missing.v2.js'' NotPassed Undefined ?w'))))
       = ''https://example.org/x/missing.v2.js?cacheBuster=1700000000999''
     \<and> length (head_children (snd (load example_host 1700000000999 ''/x/missing.v2.js''
       NotPassed Undefined ?w'))) = 2"
    by simp
  have 6: "URL_href example_host (''/modules/bustMe.js'' @ ''?cacheBuster='' @ decimal 1700000000999)
       (origin example_host) = Inr ''https://example.org/modules/bustMe.js?cacheBuster=1700000000999''"
    by (simp add: example_host_def decimal_later)
  have 7: "\<not> isLoaded initial_world (moduleName (schema ''/modules/bustMe.js''))
     \<and> (URL_href broken_host (''/modules/bustMe.js'' @ ''?cacheBuster='' @ decimal 1700000000000)
            (origin broken_host) = Inl (ErrorObj 5)
         \<or> (\<exists>href. URL_href broken_host (''/modules/bustMe.js'' @ ''?cacheBuster='' @ decimal 1700000000000)
                   (origin broken_host) = Inr href
               \<and> (createElement_fails broken_host = Some (ErrorObj 5)
                    \<or> (createElement_fails broken_host = None
                         \<and> ((default_options NotPassed = None \<and> ErrorObj 5 = TypeError)
                              \<or> (default_options NotPassed \<noteq> None
                                   \<and> appendChild_fails broken_host = Some (ErrorObj 5)))))))
     \<and> moduleName (schema ''/modules/bustMe.js'') = moduleName (schema ''/modules/bustMe.js'')"
    by (simp add: schema_bustMe isLoaded_def Object_prototype_keys_def initial_world_def
        broken_host_def example_host_def)
  from failed_load_leaves_registry [OF 6 2 3 4, THEN conjunct2, THEN conjunct2, THEN conjunct2,
      THEN conjunct2, THEN conjunct2, rule_format, OF 7, THEN conjunct2, of Undefined]
  obtain el' where "head_children (snd (load example_host 1700000000999 ''/modules/bustMe.js''
       NotPassed Undefined ?v')) = head_children ?v' @ [el']"
    and "el_src el' = ''https://example.org/modules/bustMe.js?cacheBuster=1700000000999''"
    by blast
  then have b: "el_src (last (head_children (snd (load example_host 1700000000999
       ''/modules/bustMe.js'' NotPassed Undefined ?v'))))
       = ''https://example.org/modules/bustMe.js?cacheBuster=1700000000999''"
    by simp
  have 8: "isLoaded loaded_world (moduleName (schema ''/modules/bustMe.js''))"
    by (simp add: schema_bustMe isLoaded_def loaded_world_eq)
  have fe: "fire_error 0 (ErrorObj 7) loaded_world =
      loaded_world\<lparr>trace := [Settled 0 Fulfilled, ConsoleError (ErrorObj 7)]\<rparr>"
    by (simp add: loaded_world_eq fire_error_def onerror_def report_failure_def reject_def
        settle_def emit_def)
  from failed_load_leaves_registry [OF 6 2 3 4, THEN conjunct2, THEN conjunct2, THEN conjunct1,
      rule_format, OF 8, THEN conjunct2, of Undefined 0 "ErrorObj 7"]
  have c: "promises (snd (load example_host 1700000000999 ''/modules/bustMe.js'' NotPassed Undefined
       (fire_error 0 (ErrorObj 7) loaded_world))) = [Fulfilled, Fulfilled]
   \<and> length (head_children (snd (load example_host 1700000000999 ''/modules/bustMe.js'' NotPassed
       Undefined (fire_error 0 (ErrorObj 7) loaded_world)))) = 1"
    by (simp add: fe) (simp add: loaded_world_eq)
  from a b c show ?thesis by blast
qed

section \<open>Exceptions and failures\<close>

text \<open>
  C2. For every locator, options argument, \<open>thisArg\<close>, host, clock reading and state,
  \<open>load\<close> returns a promise, the next one of the state, and leaves the promises before
  it as they are. Whenever, in a call that is not deduplicated, \<open>new URL\<close> raises an
  exception \<open>e\<close>, or \<open>document.createElement\<close> does, or reading \<open>options.async\<close>
  of \<open>null\<close> does (\<open>e\<close> is then the \<open>TypeError\<close>), or \<open>appendChild\<close> does, no
  element is inserted and the promise returned is rejected: with \<open>e\<close> when there is no
  hook; after one call of the hook with \<open>e\<close> when there is one, with \<open>e\<close> if the hook
  returns and with the hook's own exception if it throws; and with the \<open>TypeError\<close> of
  the \<open>catch\<close> block itself when \<open>options\<close> is \<open>null\<close>. The exception never reaches
  the caller of \<open>load\<close>.
\<close>

theorem load_never_throws:
  "fst (load h t module oa thisArg w) = length (promises w)
   \<and> (\<exists>s. promises (snd (load h t module oa thisArg w)) = promises w @ [s])
   \<and> (\<forall>e.
         \<not> isLoaded w (moduleName (schema module))
         \<and> (URL_href h (module @ ''?cacheBuster='' @ decimal t) (origin h) = Inl e
              \<or> (\<exists>href. URL_href h (module @ ''?cacheBuster='' @ decimal t) (origin h) = Inr href
                    \<and> (createElement_fails h = Some e
                         \<or> (createElement_fails h = None
                              \<and> ((default_options oa = None \<and> e = TypeError)
                                   \<or> (default_options oa \<noteq> None
                                        \<and> appendChild_fails h = Some e)))))) \<longrightarrow>
         head_children (snd (load h t module oa thisArg w)) = head_children w
         \<and> loadedModules (snd (load h t module oa thisArg w)) = loadedModules w
         \<and> (default_options oa = None \<longrightarrow>
              promises (snd (load h t module oa thisArg w)) = promises w @ [Rejected TypeError]
              \<and> trace (snd (load h t module oa thisArg w)) =
                  trace w @ [ConsoleError e, Settled (length (promises w)) (Rejected TypeError)])
         \<and> (\<forall>opts. default_options oa = Some opts \<and> opt_onError opts = None \<longrightarrow>
              promises (snd (load h t module oa thisArg w)) = promises w @ [Rejected e]
              \<and> trace (snd (load h t module oa thisArg w)) =
                  trace w @ [ConsoleError e, Settled (length (promises w)) (Rejected e)])
         \<and> (\<forall>opts hk. default_options oa = Some opts \<and> opt_onError opts = Some hk \<longrightarrow>
              promises (snd (load h t module oa thisArg w)) =
                promises w @ [Rejected (case hk (binding thisArg) e of None \<Rightarrow> e | Some y \<Rightarrow> y)]
              \<and> trace (snd (load h t module oa thisArg w)) =
                  trace w @
                    [ConsoleError e, OnErrorCalled (binding thisArg) e,
                     Settled (length (promises w))
                       (Rejected (case hk (binding thisArg) e of None \<Rightarrow> e | Some y \<Rightarrow> y))]))"
proof (intro conjI allI impI)
  show "fst (load h t module oa thisArg w) = length (promises w)"
    by (rule load_allocates)
  show "\<exists>s. promises (snd (load h t module oa thisArg w)) = promises w @ [s]"
    by (rule load_promises_append)
next
  fix e
  assume raised: "\<not> isLoaded w (moduleName (schema module))
         \<and> (URL_href h (module @ ''?cacheBuster='' @ decimal t) (origin h) = Inl e
              \<or> (\<exists>href. URL_href h (module @ ''?cacheBuster='' @ decimal t) (origin h) = Inr href
                    \<and> (createElement_fails h = Some e
                         \<or> (createElement_fails h = None
                              \<and> ((default_options oa = None \<and> e = TypeError)
                                   \<or> (default_options oa \<noteq> None
                                        \<and> appendChild_fails h = Some e))))))"
  let ?w0 = "w\<lparr>promises := promises w @ [Pending]\<rparr>"
  from raised have "\<not> isLoaded ?w0 (moduleName (schema module))"
    by (simp add: isLoaded_def)
  moreover from raised have "URL_href h (cacheBusted module t) (origin h) = Inl e
         \<or> (\<exists>href. URL_href h (cacheBusted module t) (origin h) = Inr href
               \<and> (createElement_fails h = Some e
                    \<or> (createElement_fails h = None
                         \<and> ((default_options oa = None \<and> e = TypeError)
                              \<or> (default_options oa \<noteq> None \<and> appendChild_fails h = Some e)))))"
    by (simp add: cacheBusted_def)
  ultimately have "try_block h t module (default_options oa) thisArg (length (promises w)) ?w0
      = (Some e, ?w0)"
    by (rule try_block_host_raises)
  note caught = load_caught [OF this]
  show "head_children (snd (load h t module oa thisArg w)) = head_children w"
    by (simp add: caught split: option.splits)
  show "loadedModules (snd (load h t module oa thisArg w)) = loadedModules w"
    by (rule load_registry)
  { assume "default_options oa = None"
    then show "promises (snd (load h t module oa thisArg w)) = promises w @ [Rejected TypeError]"
      and "trace (snd (load h t module oa thisArg w)) =
                  trace w @ [ConsoleError e, Settled (length (promises w)) (Rejected TypeError)]"
      by (simp_all add: caught) }
  { fix opts assume "default_options oa = Some opts \<and> opt_onError opts = None"
    then show "promises (snd (load h t module oa thisArg w)) = promises w @ [Rejected e]"
      and "trace (snd (load h t module oa thisArg w)) =
                  trace w @ [ConsoleError e, Settled (length (promises w)) (Rejected e)]"
      by (simp_all add: caught) }
  { fix opts hk assume "default_options oa = Some opts \<and> opt_onError opts = Some hk"
    then show "promises (snd (load h t module oa thisArg w)) =
                promises w @ [Rejected (case hk (binding thisArg) e of None \<Rightarrow> e | Some y \<Rightarrow> y)]"
      and "trace (snd (load h t module oa thisArg w)) =
                  trace w @
                    [ConsoleError e, OnErrorCalled (binding thisArg) e,
                     Settled (length (promises w))
                       (Rejected (case hk (binding thisArg) e of None \<Rightarrow> e | Some y \<Rightarrow> y))]"
      by (simp_all add: caught) }
qed

theorem load_never_throws_witness:
  "promises (snd (load broken_host 1700000000000 ''/modules/bustMe.js''
       (Passed \<lparr>opt_async = Undefined, opt_onError = Some returning_hook\<rparr>) (Obj 3) initial_world))
     = [Rejected (ErrorObj 5)]
   \<and> trace (snd (load broken_host 1700000000000 ''/modules/bustMe.js''
       (Passed \<lparr>opt_async = Undefined, opt_onError = Some returning_hook\<rparr>) (Obj 3) initial_world))
     = [ConsoleError (ErrorObj 5), OnErrorCalled (Some (Obj 3)) (ErrorObj 5),
        Settled 0 (Rejected (ErrorObj 5))]
   \<and> promises (snd (load example_host 1700000000000 ''/modules/bustMe.js'' PassedNull Undefined
       initial_world)) = [Rejected TypeError]
   \<and> promises (snd (load unparsable_host 1700000000000 ''/modules/bustMe.js'' NotPassed Undefined
       initial_world)) = [Rejected (ErrorObj 4)]
   \<and> trace (snd (load unparsable_host 1700000000000 ''/modules/bustMe.js'' NotPassed Undefined
       initial_world)) = [ConsoleError (ErrorObj 4), Settled 0 (Rejected (ErrorObj 4))]"
proof -
  have nl: "\<not> isLoaded initial_world (moduleName (schema ''/modules/bustMe.js''))"
    by (simp add: schema_bustMe isLoaded_def Object_prototype_keys_def initial_world_def)
  have opts: "default_options (Passed \<lparr>opt_async = Undefined, opt_onError = Some returning_hook\<rparr>)
      = Some \<lparr>opt_async = Undefined, opt_onError = Some returning_hook\<rparr>
    \<and> opt_onError \<lparr>opt_async = Undefined, opt_onError = Some returning_hook\<rparr> = Some returning_hook"
    by simp
  have r1: "\<not> isLoaded initial_world (moduleName (schema ''/modules/bustMe.js''))
     \<and> (URL_href broken_host (''/modules/bustMe.js'' @ ''?cacheBuster='' @ decimal 1700000000000)
            (origin broken_host) = Inl (ErrorObj 5)
         \<or> (\<exists>href. URL_href broken_host (''/modules/bustMe.js'' @ ''?cacheBuster='' @ decimal 1700000000000)
                   (origin broken_host) = Inr href
               \<and> (createElement_fails broken_host = Some (ErrorObj 5)
                    \<or> (createElement_fails broken_host = None
                         \<and> ((default_options (Passed \<lparr>opt_async = Undefined, opt_onError = Some returning_hook\<rparr>) = None
                               \<and> ErrorObj 5 = TypeError)
                              \<or> (default_options (Passed \<lparr>opt_async = Undefined, opt_onError = Some returning_hook\<rparr>) \<noteq> None
                                   \<and> appendChild_fails broken_host = Some (ErrorObj 5)))))))"
    using nl by (simp add: broken_host_def example_host_def)
  have r2: "\<not> isLoaded initial_world (moduleName (schema ''/modules/bustMe.js''))
     \<and> (URL_href example_host (''/modules/bustMe.js'' @ ''?cacheBuster='' @ decimal 1700000000000)
            (origin example_host) = Inl TypeError
         \<or> (\<exists>href. URL_href example_host (''/modules/bustMe.js'' @ ''?cacheBuster='' @ decimal 1700000000000)
                   (origin example_host) = Inr href
               \<and> (createElement_fails example_host = Some TypeError
                    \<or> (createElement_fails example_host = None
                         \<and> ((default_options PassedNull = None \<and> TypeError = TypeError)
                              \<or> (default_options PassedNull \<noteq> None
                                   \<and> appendChild_fails example_host = Some TypeError))))))"
    using nl by (simp add: example_host_def)
  have r3: "\<not> isLoaded initial_world (moduleName (schema ''/modules/bustMe.js''))
     \<and> (URL_href unparsable_host (''/modules/bustMe.js'' @ ''?cacheBuster='' @ decimal 1700000000000)
            (origin unparsable_host) = Inl (ErrorObj 4)
         \<or> (\<exists>href. URL_href unparsable_host (''/modules/bustMe.js'' @ ''?cacheBuster='' @ decimal 1700000000000)
                   (origin unparsable_host) = Inr href
               \<and> (createElement_fails unparsable_host = Some (ErrorObj 4)
                    \<or> (createElement_fails unparsable_host = None
                         \<and> ((default_options NotPassed = None \<and> ErrorObj 4 = TypeError)
                              \<or> (default_options NotPassed \<noteq> None
                                   \<and> appendChild_fails unparsable_host = Some (ErrorObj 4)))))))"
    using nl by (simp add: unparsable_host_def example_host_def)
  have null: "default_options PassedNull = None" by simp
  have nohook: "default_options NotPassed = Some \<lparr>opt_async = Undefined, opt_onError = None\<rparr>
     \<and> opt_onError \<lparr>opt_async = Undefined, opt_onError = None\<rparr> = None" by simp
  note hook = load_never_throws [THEN conjunct2, THEN conjunct2, rule_format, OF r1,
      THEN conjunct2, THEN conjunct2, THEN conjunct2, THEN conjunct2, rule_format, OF opts]
  note nullcase = load_never_throws [THEN conjunct2, THEN conjunct2, rule_format, OF r2,
      THEN conjunct2, THEN conjunct2, THEN conjunct1, rule_format, OF null]
  note urlcase = load_never_throws [THEN conjunct2, THEN conjunct2, rule_format, OF r3,
      THEN conjunct2, THEN conjunct2, THEN conjunct2, THEN conjunct1, rule_format, OF nohook]
  from hook nullcase urlcase show ?thesis
    by (simp add: initial_world_def returning_hook_def binding_def)
qed

text \<open>
  C4, as stated, would have the promise rejected with the error after every reported
  failure with a hook. When the hook throws, the handler stops there: the promise of the
  third scenario stays pending, and the exception of the hook goes to the host.
\<close>

theorem onError_throwing_hook_counterexample:
  "promises (fire_error 0 (ErrorObj 7)
      (snd (load example_host 1700000000000 ''/x/missing.v2.js''
              (Passed \<lparr>opt_async = Undefined, opt_onError = Some throwing_hook\<rparr>) Undefined
              initial_world))) = [Pending]
   \<and> trace (fire_error 0 (ErrorObj 7)
      (snd (load example_host 1700000000000 ''/x/missing.v2.js''
              (Passed \<lparr>opt_async = Undefined, opt_onError = Some throwing_hook\<rparr>) Undefined
              initial_world)))
     = [ConsoleError (ErrorObj 7), OnErrorCalled None (ErrorObj 7), Uncaught (ErrorObj 99)]"
  by (simp add: load_missing fire_error_def onerror_def report_failure_def binding_def
      throwing_hook_def emit_def)

text \<open>
  C4, amended. Let a call of \<open>load\<close> with a hook in its options inject an element, let
  any calls and events follow, and let the promise that the call returned be pending
  still when the element reports a failure with the error \<open>e\<close>. If the hook returns,
  the handler reports \<open>e\<close> on the console, calls the hook of that call exactly once
  with \<open>e\<close>, bound to the \<open>thisArg\<close> of that call when it is truthy and as a method
  of the options otherwise, and after that rejects the promise that the call returned,
  and no other, with \<open>e\<close>.
\<close>

theorem onError_once_then_reject:
  assumes "length (head_children (snd (load h t module oa thisArg w))) = Suc (length (head_children w))"
    and "default_options oa = Some opts" and "opt_onError opts = Some hk"
    and "w2 = run h2 (snd (load h t module oa thisArg w)) actions"
    and "promises w2 ! fst (load h t module oa thisArg w) = Pending"
    and "hk (binding thisArg) e = None"
  shows "fst (load h t module oa thisArg w) = length (promises w)
       \<and> trace (fire_error (length (head_children w)) e w2) =
           trace w2 @
             [ConsoleError e,
              OnErrorCalled (if truthy thisArg then Some thisArg else None) e,
              Settled (fst (load h t module oa thisArg w)) (Rejected e)]
       \<and> promises (fire_error (length (head_children w)) e w2)
           = (promises w2)[fst (load h t module oa thisArg w) := Rejected e]
       \<and> promises (fire_error (length (head_children w)) e w2) ! fst (load h t module oa thisArg w)
           = Rejected e"
proof -
  let ?p = "length (promises w)" and ?i = "length (head_children w)"
  let ?w1 = "snd (load h t module oa thisArg w)"
  from load_injected_element [OF assms(1)] assms(2)
  obtain href where l: "load h t module oa thisArg w =
           (?p,
            w\<lparr>head_children := head_children w @
                 [\<lparr>el_src = href, el_defer = True, el_type = ''application/javascript'',
                   el_async = (if opt_async opts \<noteq> Bool False then Some True else None),
                   el_moduleName = moduleName (schema module),
                   el_promise = ?p,
                   el_options = opts, el_thisArg = thisArg\<rparr>],
              promises := promises w @ [Pending]\<rparr>)"
    by auto
  have p: "fst (load h t module oa thisArg w) = ?p" by (simp add: l)
  obtain els where "head_children w2 = head_children ?w1 @ els"
    using run_head_prefix [of h2 ?w1 actions] assms(4) by auto
  then have hd2: "head_children w2 = head_children w @
                 [\<lparr>el_src = href, el_defer = True, el_type = ''application/javascript'',
                   el_async = (if opt_async opts \<noteq> Bool False then Some True else None),
                   el_moduleName = moduleName (schema module),
                   el_promise = ?p,
                   el_options = opts, el_thisArg = thisArg\<rparr>] @ els"
    by (simp add: l)
  have i: "?i < length (head_children w2)" by (simp add: hd2)
  have el: "head_children w2 ! ?i =
                 \<lparr>el_src = href, el_defer = True, el_type = ''application/javascript'',
                   el_async = (if opt_async opts \<noteq> Bool False then Some True else None),
                   el_moduleName = moduleName (schema module),
                   el_promise = ?p,
                   el_options = opts, el_thisArg = thisArg\<rparr>"
    by (simp add: hd2)
  have "length (promises ?w1) \<le> length (promises w2)"
    using run_promises_length [of ?w1 h2 actions] assms(4) by simp
  then have len: "?p < length (promises w2)" by (simp add: l)
  have a: "opt_onError (el_options (head_children w2 ! ?i)) = Some hk"
    by (simp add: el assms(3))
  have b: "el_promise (head_children w2 ! ?i) < length (promises w2)"
    by (simp add: el len)
  have c: "promises w2 ! el_promise (head_children w2 ! ?i) = Pending"
    using assms(5) by (simp add: el p)
  have d: "hk (binding (el_thisArg (head_children w2 ! ?i))) e = None"
    using assms(6) by (simp add: el)
  from fire_error_hook_returns [OF i a b c d] len
  show ?thesis
    by (simp add: el p binding_def)
qed

text \<open>The third scenario of the specification, with a second call for the same locator
  between the first call and the failure of its element.\<close>

theorem onError_once_then_reject_witness:
  "trace (fire_error 0 (ErrorObj 7)
      (run example_host
         (snd (load example_host 1700000000000 ''/x/missing.v2.js''
                 (Passed \<lparr>opt_async = Undefined, opt_onError = Some returning_hook\<rparr>) (Obj 3)
                 initial_world))
         [CallLoad 1700000000001 ''/x/missing.v2.js'' NotPassed Undefined]))
     = [ConsoleError (ErrorObj 7), OnErrorCalled (Some (Obj 3)) (ErrorObj 7),
        Settled 0 (Rejected (ErrorObj 7))]
   \<and> promises (fire_error 0 (ErrorObj 7)
      (run example_host
         (snd (load example_host 1700000000000 ''/x/missing.v2.js''
                 (Passed \<lparr>opt_async = Undefined, opt_onError = Some returning_hook\<rparr>) (Obj 3)
                 initial_world))
         [CallLoad 1700000000001 ''/x/missing.v2.js'' NotPassed Undefined]))
     = [Rejected (ErrorObj 7), Pending]"
proof -
  let ?oa = "Passed \<lparr>opt_async = Undefined, opt_onError = Some returning_hook\<rparr>"
  let ?l = "load example_host 1700000000000 ''/x/missing.v2.js'' ?oa (Obj 3) initial_world"
  let ?w2 = "run example_host (snd ?l)
               [CallLoad 1700000000001 ''/x/missing.v2.js'' NotPassed Undefined]"
  have l: "?l = (0, \<lparr>loadedModules = {},
          head_children =
            [\<lparr>el_src = ''https://example.org/x/missing.v2.js?cacheBuster=1700000000000'',
              el_defer = True, el_type = ''application/javascript'', el_async = Some True,
              el_moduleName = ''missing'', el_promise = 0,
              el_options = \<lparr>opt_async = Undefined, opt_onError = Some returning_hook\<rparr>,
              el_thisArg = Obj 3\<rparr>],
          promises = [Pending], trace = []\<rparr>)"
    by (rule load_missing)
  have w2: "promises ?w2 = [Pending, Pending] \<and> trace ?w2 = []"
    by (simp add: l run_def load_missing_any)
  have 1: "length (head_children (snd ?l)) = Suc (length (head_children initial_world))"
    by (simp only: l) (simp add: initial_world_def)
  have 2: "default_options ?oa = Some \<lparr>opt_async = Undefined, opt_onError = Some returning_hook\<rparr>"
    by simp
  have 3: "opt_onError \<lparr>opt_async = Undefined, opt_onError = Some returning_hook\<rparr>
           = Some returning_hook"
    by simp
  have 4: "?w2 = run example_host (snd ?l)
               [CallLoad 1700000000001 ''/x/missing.v2.js'' NotPassed Undefined]"
    by (rule refl)
  have 5: "promises ?w2 ! fst ?l = Pending"
    by (simp add: w2) (simp add: l)
  have 6: "returning_hook (binding (Obj 3)) (ErrorObj 7) = None"
    by (simp add: returning_hook_def)
  from onError_once_then_reject [OF 1 2 3 4 5 6] w2
  show ?thesis
    by (simp only: l) (simp add: initial_world_def)
qed

section \<open>The requested URL\<close>

text \<open>
  C3. For every call of \<open>load\<close> that is not deduplicated: the call inserts nothing (an
  exception was caught) or exactly one element, and the source of that element is what
  \<open>new URL\<close> makes of the locator followed by \<open>?cacheBuster=\<close> and the clock
  reading in decimal, resolved against \<open>window.location.origin\<close>. The element is
  inserted whenever the operations of the host succeed and \<open>options\<close> is not \<open>null\<close>.
  The locator is taken as it is, with a query string or without one.
\<close>

theorem load_src_is_cacheBusted_locator:
  assumes "\<not> isLoaded w (moduleName (schema module))"
  shows "(head_children (snd (load h t module oa thisArg w)) = head_children w
          \<or> (\<exists>el. head_children (snd (load h t module oa thisArg w)) = head_children w @ [el]
                \<and> URL_href h (module @ ''?cacheBuster='' @ decimal t) (origin h)
                    = Inr (el_src el)))
       \<and> (\<forall>href opts.
             URL_href h (module @ ''?cacheBuster='' @ decimal t) (origin h) = Inr href
             \<and> createElement_fails h = None \<and> appendChild_fails h = None
             \<and> default_options oa = Some opts \<longrightarrow>
             (\<exists>el. head_children (snd (load h t module oa thisArg w)) = head_children w @ [el]
                \<and> el_src el = href))"
proof (intro conjI allI impI)
  show "head_children (snd (load h t module oa thisArg w)) = head_children w
          \<or> (\<exists>el. head_children (snd (load h t module oa thisArg w)) = head_children w @ [el]
                \<and> URL_href h (module @ ''?cacheBuster='' @ decimal t) (origin h)
                    = Inr (el_src el))"
    using load_unchanged_or_injected [of h t module oa thisArg w]
    by (auto simp: cacheBusted_def)
next
  fix href opts
  assume ok: "URL_href h (module @ ''?cacheBuster='' @ decimal t) (origin h) = Inr href
             \<and> createElement_fails h = None \<and> appendChild_fails h = None
             \<and> default_options oa = Some opts"
  then have "URL_href h (cacheBusted module t) (origin h) = Inr href"
    by (simp add: cacheBusted_def)
  from load_injects [OF assms this, of oa opts thisArg] ok
  show "\<exists>el. head_children (snd (load h t module oa thisArg w)) = head_children w @ [el]
                \<and> el_src el = href"
    by simp
qed

text \<open>A locator that carries a query string already.\<close>

theorem load_src_is_cacheBusted_locator_witness:
  "el_src (last (head_children (snd (load example_host 1700000000000 ''/a.js?v=1'' NotPassed
       Undefined initial_world)))) = ''https://example.org/a.js?v=1?cacheBuster=1700000000000''
   \<and> length (head_children (snd (load example_host 1700000000000 ''/a.js?v=1'' NotPassed
       Undefined initial_world))) = 1"
proof -
  have 1: "\<not> isLoaded initial_world (moduleName (schema ''/a.js?v=1''))"
    by (simp add: schema_a_js isLoaded_def initial_world_def Object_prototype_keys_def)
  have 2: "URL_href example_host (''/a.js?v=1'' @ ''?cacheBuster='' @ decimal 1700000000000)
             (origin example_host) = Inr ''https://example.org/a.js?v=1?cacheBuster=1700000000000''
      \<and> createElement_fails example_host = None \<and> appendChild_fails example_host = None
      \<and> default_options NotPassed = Some \<lparr>opt_async = Undefined, opt_onError = None\<rparr>"
    by (simp add: example_host_def decimal_example)
  from load_src_is_cacheBusted_locator [OF 1, THEN conjunct2, rule_format, OF 2, of Undefined]
  obtain el where "head_children (snd (load example_host 1700000000000 ''/a.js?v=1'' NotPassed
       Undefined initial_world)) = head_children initial_world @ [el]"
    and "el_src el = ''https://example.org/a.js?v=1?cacheBuster=1700000000000''"
    by blast
  then show ?thesis by (simp add: initial_world_def)
qed

text \<open>
  C8, as stated, would make every constructed URL differ from the earlier ones for the
  same resource. Two calls for the same locator at the same reading of the clock, the
  second before the first has loaded, insert two elements with the same source.
\<close>

theorem same_millisecond_counterexample:
  "map el_src (head_children (run example_host initial_world
      [CallLoad 1700000000000 ''/modules/bustMe.js'' NotPassed Undefined,
       CallLoad 1700000000000 ''/modules/bustMe.js'' NotPassed Undefined]))
   = [''https://example.org/modules/bustMe.js?cacheBuster=1700000000000'',
      ''https://example.org/modules/bustMe.js?cacheBuster=1700000000000'']"
  by (simp add: run_def load_bustMe_again decimal_example initial_world_def)

text \<open>
  C8, amended. Every call of \<open>load\<close> that inserts an element reads the clock once, and
  the source of the element is what \<open>new URL\<close> makes of the locator followed by
  \<open>?cacheBuster=\<close> and that reading in decimal. For two such calls with the same
  locator, the two strings are equal exactly when the two readings are equal: the
  \<open>cacheBuster\<close> values differ when the clock has moved on between the calls, and
  are the same, with the same URL, when both calls read the same millisecond.
\<close>

theorem cacheBuster_is_clock_reading:
  assumes "length (head_children (snd (load h t1 module oa1 thisArg1 w1))) = Suc (length (head_children w1))"
    and "length (head_children (snd (load h t2 module oa2 thisArg2 w2))) = Suc (length (head_children w2))"
  shows "URL_href h (module @ ''?cacheBuster='' @ decimal t1) (origin h)
           = Inr (el_src (last (head_children (snd (load h t1 module oa1 thisArg1 w1)))))
       \<and> URL_href h (module @ ''?cacheBuster='' @ decimal t2) (origin h)
           = Inr (el_src (last (head_children (snd (load h t2 module oa2 thisArg2 w2)))))
       \<and> (module @ ''?cacheBuster='' @ decimal t1 = module @ ''?cacheBuster='' @ decimal t2
            \<longleftrightarrow> t1 = t2)
       \<and> (t1 = t2 \<longrightarrow>
            el_src (last (head_children (snd (load h t1 module oa1 thisArg1 w1))))
            = el_src (last (head_children (snd (load h t2 module oa2 thisArg2 w2)))))"
proof -
  have src: "URL_href h (module @ ''?cacheBuster='' @ decimal t) (origin h)
           = Inr (el_src (last (head_children (snd (load h t module oa thisArg w)))))"
    if "length (head_children (snd (load h t module oa thisArg w))) = Suc (length (head_children w))"
    for t oa thisArg w
    using load_unchanged_or_injected [of h t module oa thisArg w] that
    by (auto simp: cacheBusted_def)
  have 1: "URL_href h (module @ ''?cacheBuster='' @ decimal t1) (origin h)
           = Inr (el_src (last (head_children (snd (load h t1 module oa1 thisArg1 w1)))))"
    using assms(1) by (rule src)
  have 2: "URL_href h (module @ ''?cacheBuster='' @ decimal t2) (origin h)
           = Inr (el_src (last (head_children (snd (load h t2 module oa2 thisArg2 w2)))))"
    using assms(2) by (rule src)
  have 3: "module @ ''?cacheBuster='' @ decimal t1 = module @ ''?cacheBuster='' @ decimal t2
            \<longleftrightarrow> t1 = t2"
    using cacheBusted_inj [of module t1 t2] by (simp add: cacheBusted_def)
  have 4: "el_src (last (head_children (snd (load h t1 module oa1 thisArg1 w1))))
            = el_src (last (head_children (snd (load h t2 module oa2 thisArg2 w2))))" if "t1 = t2"
    using 1 2 that by simp
  from 1 2 3 4 show ?thesis by blast
qed

theorem cacheBuster_is_clock_reading_witness:
  "URL_href example_host (''/modules/bustMe.js'' @ ''?cacheBuster='' @ decimal 1700000000000)
       (origin example_host)
     = Inr (el_src (last (head_children (snd (load example_host 1700000000000
          ''/modules/bustMe.js'' NotPassed Undefined initial_world)))))
   \<and> URL_href example_host (''/modules/bustMe.js'' @ ''?cacheBuster='' @ decimal 1700000000001)
       (origin example_host)
     = Inr (el_src (last (head_children (snd (load example_host 1700000000001
          ''/modules/bustMe.js'' NotPassed Undefined
          (snd (load example_host 1700000000000 ''/modules/bustMe.js'' NotPassed Undefined
             initial_world)))))))"
proof -
  let ?w1 = "snd (load example_host 1700000000000 ''/modules/bustMe.js'' NotPassed Undefined
             initial_world)"
  have 1: "length (head_children ?w1) = Suc (length (head_children initial_world))"
    by (simp add: load_bustMe_again initial_world_def)
  have 2: "length (head_children (snd (load example_host 1700000000001 ''/modules/bustMe.js''
       NotPassed Undefined ?w1))) = Suc (length (head_children ?w1))"
    by (simp add: load_bustMe_again initial_world_def)
  show ?thesis
    using cacheBuster_is_clock_reading [OF 1 2, THEN conjunct1]
      cacheBuster_is_clock_reading [OF 1 2, THEN conjunct2, THEN conjunct1]
    by (rule conjI)
qed

section \<open>The global slot\<close>

text \<open>
  C7. \<open>$noConflict\<close> returns the loader in every case. If the global slot holds this
  loader, the slot is set to \<open>undefined\<close> and nothing else changes; if it holds anything
  else, a value of third-party code for instance, the realm is left as it is.
\<close>

theorem noConflict_detaches_own_binding:
  "fst (noConflict me r) = Obj me
   \<and> (global_buster r = Obj me \<longrightarrow> snd (noConflict me r) = r\<lparr>global_buster := Undefined\<rparr>)
   \<and> (global_buster r \<noteq> Obj me \<longrightarrow> snd (noConflict me r) = r)"
  by (simp add: noConflict_def)

theorem noConflict_detaches_own_binding_witness:
  "noConflict 1 (browser_realm (Obj 1)) = (Obj 1, browser_realm Undefined)
   \<and> noConflict 1 (browser_realm (Obj 2)) = (Obj 1, browser_realm (Obj 2))"
proof -
  have 1: "global_buster (browser_realm (Obj 1)) = Obj 1" by (simp add: browser_realm_def)
  have 2: "global_buster (browser_realm (Obj 2)) \<noteq> Obj 1" by (simp add: browser_realm_def)
  have "fst (noConflict 1 (browser_realm (Obj 1))) = Obj 1"
    and "snd (noConflict 1 (browser_realm (Obj 1))) = (browser_realm (Obj 1))\<lparr>global_buster := Undefined\<rparr>"
    and "fst (noConflict 1 (browser_realm (Obj 2))) = Obj 1"
    and "snd (noConflict 1 (browser_realm (Obj 2))) = browser_realm (Obj 2)"
    using noConflict_detaches_own_binding [of 1 "browser_realm (Obj 1)"]
      noConflict_detaches_own_binding [of 1 "browser_realm (Obj 2)"] 1 2
    by simp_all
  then show ?thesis
    by (simp add: prod_eq_iff browser_realm_def)
qed

text \<open>
  C10, as stated, would keep any value that occupies the slot. The wrapper tests
  \<open>if (global.buster)\<close>: a slot that holds \<open>false\<close> is overwritten with the loader,
  and no warning is written.
\<close>

theorem umd_wrapper_falsy_slot_counterexample:
  "global_buster (umd_wrapper 1 (browser_realm (Bool False))) = Obj 1
   \<and> warnings (umd_wrapper 1 (browser_realm (Bool False))) = []"
  by (simp add: umd_wrapper_def browser_realm_def)

text \<open>
  C10, amended. At initialization with neither CommonJS nor AMD: if the global slot
  \<open>buster\<close> holds a truthy value, the wrapper writes a warning and changes nothing
  else, so the value stays; if the slot holds a falsy value (\<open>undefined\<close>, \<open>null\<close>,
  \<open>false\<close>, \<open>0\<close> or the empty string), the wrapper writes no warning, puts the new
  loader in the slot and marks it with \<open>__esModule\<close>.
\<close>

theorem umd_wrapper_global_slot:
  assumes "\<not> has_module_exports r" and "\<not> has_define_amd r"
  shows "(truthy (global_buster r) \<longrightarrow>
            umd_wrapper me r =
              r\<lparr>warnings := warnings r @ [''buster is already defined in the global scope'']\<rparr>)
       \<and> (\<not> truthy (global_buster r) \<longrightarrow>
            umd_wrapper me r =
              r\<lparr>global_buster := Obj me, esModule_marked := esModule_marked r @ [Obj me]\<rparr>)"
  using assms by (simp add: umd_wrapper_def)

theorem umd_wrapper_global_slot_witness:
  "global_buster (umd_wrapper 1 (browser_realm (Obj 2))) = Obj 2
   \<and> warnings (umd_wrapper 1 (browser_realm (Obj 2))) = [''buster is already defined in the global scope'']
   \<and> global_buster (umd_wrapper 1 (browser_realm Undefined)) = Obj 1
   \<and> warnings (umd_wrapper 1 (browser_realm Undefined)) = []"
proof -
  have 1: "\<not> has_module_exports (browser_realm s)" for s by (simp add: browser_realm_def)
  have 2: "\<not> has_define_amd (browser_realm s)" for s by (simp add: browser_realm_def)
  have 3: "truthy (global_buster (browser_realm (Obj 2)))" by (simp add: browser_realm_def)
  have 4: "\<not> truthy (global_buster (browser_realm Undefined))" by (simp add: browser_realm_def)
  show ?thesis
    using umd_wrapper_global_slot [OF 1 2, THEN conjunct1, rule_format, OF 3, of 1]
      umd_wrapper_global_slot [OF 1 2, THEN conjunct2, rule_format, OF 4, of 1]
    by (simp add: browser_realm_def)
qed

end
